theory Spec2Isabelle
  imports Complex_Main
begin

section \<open>The WebGL context as seen by the loader\<close>

text \<open>
  \<^verbatim>\<open>shader-loader.js\<close> drives a WebGL2 context through a fixed set of calls. The
  context is modelled as a record of the objects that are alive, plus a log of the calls
  that create, delete, draw and copy, in the order they were issued. Object identities
  (\<^verbatim>\<open>WebGLTexture\<close>, \<^verbatim>\<open>WebGLFramebuffer\<close>, ...) are handles drawn from a counter.

  Numbers: JavaScript numbers are modelled by \<open>real\<close> (clock readings, opacities) and by
  \<open>nat\<close> (pixel sizes, the frame counter); rounding of doubles is not represented, and
  the frame counter stays far below \<open>2^53\<close>, where doubles count exactly.
\<close>

type_synonym handle = nat
type_synonym rgba = "nat \<times> nat \<times> nat \<times> nat"
type_synonym image = "nat \<Rightarrow> nat \<Rightarrow> rgba"

text \<open>Keys of \<^verbatim>\<open>this.programs\<close> (\<^verbatim>\<open>bufferA\<close>, \<^verbatim>\<open>bufferB\<close>, \<^verbatim>\<open>image\<close>) and of
  \<^verbatim>\<open>this.textures\<close> / \<^verbatim>\<open>this.framebuffers\<close>.\<close>

datatype pass = bufferA_prog | bufferB_prog | image_prog

datatype target = bufferA | bufferB | bufferAPrev

record texture =
  tex_w :: nat
  tex_h :: nat
  tex_px :: image

text \<open>\<^verbatim>\<open>new Uint8Array(w * h * 4)\<close>: every byte is zero.\<close>

definition blackData :: image where
  "blackData = (\<lambda>x y. (0, 0, 0, 0))"

text \<open>One \<^verbatim>\<open>gl.drawArrays\<close> with everything \<^verbatim>\<open>renderPass\<close> bound for it.\<close>

record draw_call =
  dc_program :: handle
  dc_output :: "handle option"
  dc_viewport :: "nat \<times> nat"
  dc_iTime :: real
  dc_iResolution :: "nat \<times> nat"
  dc_iFrame :: nat
  dc_inputs :: "handle option list"

datatype gl_call =
    CreateTexture handle
  | TexImage2D handle nat nat
  | DeleteTexture handle
  | CreateFramebuffer handle
  | FramebufferTexture2D handle "handle option"
  | DeleteFramebuffer handle
  | CreateProgram handle
  | DeleteProgram handle
  | CreateBuffer handle
  | DeleteBuffer handle
  | Draw draw_call
  | Blit "handle option" "handle option" nat nat

record glctx =
  next_handle :: handle
  gl_textures :: "handle \<rightharpoonup> texture"
  gl_framebuffers :: "handle \<rightharpoonup> handle option"
  gl_programs :: "handle \<rightharpoonup> pass option"
  gl_buffers :: "handle set"
  gl_log :: "gl_call list"

text \<open>
  What the platform decides: whether \<^verbatim>\<open>getContext('webgl2')\<close> yields a context, how each
  of the three programs fares in \<^verbatim>\<open>compileProgram\<close>, and what a linked program computes
  for a fragment. The GLSL bodies are data to the loader, so a program's meaning is the
  function \<open>shade\<close>: pass, \<^verbatim>\<open>iTime\<close>, \<^verbatim>\<open>iResolution\<close>, \<^verbatim>\<open>iFrame\<close>, the textures bound to
  units 0, 1 (\<open>None\<close> for a unit with no live texture), and the fragment's pixel.
\<close>

datatype compile_status = VSError | FSError | LinkError | Linked

record env =
  webgl2 :: bool
  compile :: "pass \<Rightarrow> compile_status"
  shade :: "pass \<Rightarrow> real \<Rightarrow> nat \<times> nat \<Rightarrow> nat \<Rightarrow> texture option list \<Rightarrow> nat \<Rightarrow> nat \<Rightarrow> rgba"

definition new_context :: glctx where
  "new_context = \<lparr>next_handle = 0, gl_textures = Map.empty, gl_framebuffers = Map.empty,
     gl_programs = Map.empty, gl_buffers = {}, gl_log = []\<rparr>"

definition gl_createTexture :: "glctx \<Rightarrow> handle \<times> glctx" where
  "gl_createTexture g =
     (next_handle g,
      g\<lparr>next_handle := Suc (next_handle g),
        gl_textures := (gl_textures g)(next_handle g \<mapsto> \<lparr>tex_w = 0, tex_h = 0, tex_px = blackData\<rparr>),
        gl_log := gl_log g @ [CreateTexture (next_handle g)]\<rparr>)"

definition gl_texImage2D :: "handle \<Rightarrow> nat \<Rightarrow> nat \<Rightarrow> image \<Rightarrow> glctx \<Rightarrow> glctx" where
  "gl_texImage2D t w h px g =
     g\<lparr>gl_textures := (gl_textures g)(t \<mapsto> \<lparr>tex_w = w, tex_h = h, tex_px = px\<rparr>),
       gl_log := gl_log g @ [TexImage2D t w h]\<rparr>"

text \<open>WebGL ignores \<^verbatim>\<open>deleteTexture(undefined)\<close> and its siblings.\<close>

definition gl_deleteTexture :: "handle option \<Rightarrow> glctx \<Rightarrow> glctx" where
  "gl_deleteTexture t g =
     (case t of None \<Rightarrow> g
      | Some h \<Rightarrow> g\<lparr>gl_textures := (gl_textures g)(h := None),
                    gl_log := gl_log g @ [DeleteTexture h]\<rparr>)"

definition gl_createFramebuffer :: "glctx \<Rightarrow> handle \<times> glctx" where
  "gl_createFramebuffer g =
     (next_handle g,
      g\<lparr>next_handle := Suc (next_handle g),
        gl_framebuffers := (gl_framebuffers g)(next_handle g \<mapsto> None),
        gl_log := gl_log g @ [CreateFramebuffer (next_handle g)]\<rparr>)"

definition gl_framebufferTexture2D :: "handle \<Rightarrow> handle option \<Rightarrow> glctx \<Rightarrow> glctx" where
  "gl_framebufferTexture2D f t g =
     g\<lparr>gl_framebuffers := (gl_framebuffers g)(f \<mapsto> t),
       gl_log := gl_log g @ [FramebufferTexture2D f t]\<rparr>"

definition gl_deleteFramebuffer :: "handle option \<Rightarrow> glctx \<Rightarrow> glctx" where
  "gl_deleteFramebuffer f g =
     (case f of None \<Rightarrow> g
      | Some h \<Rightarrow> g\<lparr>gl_framebuffers := (gl_framebuffers g)(h := None),
                    gl_log := gl_log g @ [DeleteFramebuffer h]\<rparr>)"

text \<open>A program object is usable once linked; \<open>Some p\<close> names the fragment body it runs.\<close>

definition gl_createProgram :: "glctx \<Rightarrow> handle \<times> glctx" where
  "gl_createProgram g =
     (next_handle g,
      g\<lparr>next_handle := Suc (next_handle g),
        gl_programs := (gl_programs g)(next_handle g \<mapsto> None),
        gl_log := gl_log g @ [CreateProgram (next_handle g)]\<rparr>)"

definition gl_linkProgram :: "handle \<Rightarrow> pass \<Rightarrow> glctx \<Rightarrow> glctx" where
  "gl_linkProgram h p g = g\<lparr>gl_programs := (gl_programs g)(h \<mapsto> Some p)\<rparr>"

definition gl_deleteProgram :: "handle \<Rightarrow> glctx \<Rightarrow> glctx" where
  "gl_deleteProgram h g =
     g\<lparr>gl_programs := (gl_programs g)(h := None), gl_log := gl_log g @ [DeleteProgram h]\<rparr>"

definition gl_createBuffer :: "glctx \<Rightarrow> handle \<times> glctx" where
  "gl_createBuffer g =
     (next_handle g,
      g\<lparr>next_handle := Suc (next_handle g),
        gl_buffers := insert (next_handle g) (gl_buffers g),
        gl_log := gl_log g @ [CreateBuffer (next_handle g)]\<rparr>)"

definition gl_deleteBuffer :: "handle \<Rightarrow> glctx \<Rightarrow> glctx" where
  "gl_deleteBuffer h g =
     g\<lparr>gl_buffers := gl_buffers g - {h}, gl_log := gl_log g @ [DeleteBuffer h]\<rparr>"

text \<open>The live texture behind colour attachment 0 of a bound framebuffer; \<open>None\<close> for the
  default framebuffer (the canvas) and for a framebuffer or texture that is not alive.\<close>

definition color_attachment :: "glctx \<Rightarrow> handle option \<Rightarrow> (handle \<times> texture) option" where
  "color_attachment g f =
     (case f of None \<Rightarrow> None
      | Some fb \<Rightarrow>
          (case gl_framebuffers g fb of
             Some (Some t) \<Rightarrow> (case gl_textures g t of None \<Rightarrow> None | Some tx \<Rightarrow> Some (t, tx))
           | _ \<Rightarrow> None))"

definition bound_textures :: "glctx \<Rightarrow> handle option list \<Rightarrow> texture option list" where
  "bound_textures g ts = map (\<lambda>t. case t of None \<Rightarrow> None | Some h \<Rightarrow> gl_textures g h) ts"

text \<open>
  \<^verbatim>\<open>gl.drawArrays(gl.TRIANGLES, 0, 6)\<close> on the full-screen quad: every pixel of the bound
  output inside the viewport receives the fragment colour of the program in use. The
  pixels of the canvas itself are not tracked; a draw to it is only logged.
\<close>

definition gl_drawArrays :: "env \<Rightarrow> draw_call \<Rightarrow> glctx \<Rightarrow> glctx" where
  "gl_drawArrays e dc g =
     (let g' = g\<lparr>gl_log := gl_log g @ [Draw dc]\<rparr> in
      case gl_programs g (dc_program dc) of None \<Rightarrow> g'
      | Some None \<Rightarrow> g'
      | Some (Some p) \<Rightarrow>
          (case color_attachment g (dc_output dc) of None \<Rightarrow> g'
           | Some (t, tx) \<Rightarrow>
               g'\<lparr>gl_textures := (gl_textures g)(t \<mapsto>
                    tx\<lparr>tex_px := (\<lambda>x y.
                       if x < min (fst (dc_viewport dc)) (tex_w tx) \<and>
                          y < min (snd (dc_viewport dc)) (tex_h tx)
                       then shade e p (dc_iTime dc) (dc_iResolution dc) (dc_iFrame dc)
                              (bound_textures g (dc_inputs dc)) x y
                       else tex_px tx x y)\<rparr>)\<rparr>))"

text \<open>
  \<^verbatim>\<open>gl.blitFramebuffer(0, 0, x1, y1, 0, 0, x1, y1, gl.COLOR_BUFFER_BIT, gl.LINEAR)\<close> from the
  read framebuffer to the draw framebuffer: the rectangle, clipped to both attachments, is
  copied pixel for pixel (source and destination rectangles have the same size).
\<close>

definition gl_blitFramebuffer :: "handle option \<Rightarrow> handle option \<Rightarrow> nat \<Rightarrow> nat \<Rightarrow> glctx \<Rightarrow> glctx" where
  "gl_blitFramebuffer r d x1 y1 g =
     (let g' = g\<lparr>gl_log := gl_log g @ [Blit r d x1 y1]\<rparr> in
      case color_attachment g r of None \<Rightarrow> g'
      | Some (ts, src) \<Rightarrow>
          (case color_attachment g d of None \<Rightarrow> g'
           | Some (t, dst) \<Rightarrow>
               g'\<lparr>gl_textures := (gl_textures g)(t \<mapsto>
                    dst\<lparr>tex_px := (\<lambda>x y.
                       if x < x1 \<and> y < y1 \<and> x < tex_w src \<and> y < tex_h src \<and>
                          x < tex_w dst \<and> y < tex_h dst
                       then tex_px src x y else tex_px dst x y)\<rparr>)\<rparr>))"

section \<open>The page and the loader object\<close>

record viewport =
  vv_width :: real
  vv_height :: real
  vv_offsetTop :: real
  vv_offsetLeft :: real

text \<open>What \<^verbatim>\<open>window\<close> reports when the loader asks: \<^verbatim>\<open>innerWidth\<close>, \<^verbatim>\<open>innerHeight\<close>,
  \<^verbatim>\<open>visualViewport\<close> (absent on some browsers), \<^verbatim>\<open>matchMedia('(max-width: 768px)').matches\<close>
  and \<^verbatim>\<open>scrollY\<close>. Browsers report sizes that are not negative.\<close>

record window =
  innerWidth :: real
  innerHeight :: real
  visualViewport :: "viewport option"
  matchesMobile :: bool
  win_scrollY :: real

text \<open>The \<^verbatim>\<open>canvas\<close> element: its pixel size, \<^verbatim>\<open>style.opacity\<close>, whether it is in the page,
  and whether the fallback pattern has been appended to it.\<close>

record canvas_el =
  cv_width :: nat
  cv_height :: nat
  cv_opacity :: real
  cv_attached :: bool
  cv_pattern :: bool

text \<open>The logo overlay: size, \<^verbatim>\<open>style.opacity\<close>, \<^verbatim>\<open>style.top\<close> / \<^verbatim>\<open>left\<close>, the pixel
  offsets added to \<^verbatim>\<open>-50%\<close> in \<^verbatim>\<open>style.transform\<close>, its scale, the radius of
  \<^verbatim>\<open>style.filter = blur(..px)\<close>, and whether it is in the page.\<close>

record logo_el =
  lg_width :: nat
  lg_height :: nat
  lg_opacity :: real
  lg_top :: real
  lg_left :: real
  lg_translateX :: real
  lg_translateY :: int
  lg_scale :: real
  lg_blur :: real
  lg_attached :: bool

text \<open>\<^verbatim>\<open>{program: prog, uniforms: {...}}\<close>. Uniform locations are not modelled: a sampler the
  fragment body declares reads the unit \<^verbatim>\<open>renderPass\<close> assigns it (unit \<open>i\<close> for the \<open>i\<close>-th
  input), and setting a uniform the program lacks is ignored by WebGL.\<close>

record programInfo =
  program :: handle

text \<open>
  The fields of \<^verbatim>\<open>this\<close>, followed by what the loader leaves with the browser: the body
  class, the scroll lock, the resize listeners, the pending timers (\<^verbatim>\<open>setTimeout\<close> delays,
  the number of active \<^verbatim>\<open>setInterval\<close> timers, the number of pending
  \<^verbatim>\<open>requestAnimationFrame\<close> callbacks), and how often \<^verbatim>\<open>onComplete\<close> was called and
  \<^verbatim>\<open>shaderLoaderComplete\<close> dispatched. \<open>onComplete\<close> is \<open>True\<close> when a callback is installed;
  \<^verbatim>\<open>isTransitioning\<close>, \<^verbatim>\<open>skipButton\<close> and \<^verbatim>\<open>resizeTimeout\<close> are never assigned by the class
  (they read as \<^verbatim>\<open>undefined\<close>), so only the first, which guards \<^verbatim>\<open>handleResize\<close>, is kept.
\<close>

record state =
  canvas :: "canvas_el option"
  gl :: "glctx option"
  programs :: "pass \<rightharpoonup> programInfo"
  framebuffers :: "target \<rightharpoonup> handle"
  textures :: "target \<rightharpoonup> handle"
  startTime :: real
  frameCount :: nat
  isRunning :: bool
  transitionStart :: real
  transitionDuration :: real
  onComplete :: bool
  hasError :: bool
  scrollY :: real
  logoOffsetY :: int
  logoOverlay :: "logo_el option"
  buffer :: "handle option"
  isTransitioning :: bool
  bodyLoading :: bool
  scrollLocked :: bool
  resizeListening :: bool
  fallbackStyle :: bool
  logoTimers :: nat
  transitionTimers :: "real list"
  intervals :: nat
  rafPending :: nat
  callbackCalls :: nat
  eventsDispatched :: nat

text \<open>
  A method that dereferences \<^verbatim>\<open>this.gl\<close>, \<^verbatim>\<open>this.canvas\<close> or \<^verbatim>\<open>this.logoOverlay\<close> while it
  is \<^verbatim>\<open>null\<close> raises a \<^verbatim>\<open>TypeError\<close>. Such a method returns \<open>Inl s\<close>, with \<open>s\<close> the loader
  as the raise left it, or \<open>Inr\<close> with its result. Exceptions thrown by the platform itself
  (out of memory, a lost context) are not modelled.
\<close>

definition and_then :: "state + state \<Rightarrow> (state \<Rightarrow> state + state) \<Rightarrow> state + state" where
  "and_then r f = (case r of Inl s \<Rightarrow> Inl s | Inr s \<Rightarrow> f s)"

definition constructor :: "real \<Rightarrow> state" where
  "constructor now =
     \<lparr>canvas = None, gl = None, programs = Map.empty, framebuffers = Map.empty,
      textures = Map.empty, startTime = now, frameCount = 0, isRunning = True,
      transitionStart = 5000, transitionDuration = 1500, onComplete = False,
      hasError = False, scrollY = 0, logoOffsetY = 0, logoOverlay = None, buffer = None,
      isTransitioning = False, bodyLoading = False, scrollLocked = False,
      resizeListening = False, fallbackStyle = False, logoTimers = 0,
      transitionTimers = [], intervals = 0, rafPending = 0, callbackCalls = 0,
      eventsDispatched = 0\<rparr>"

text \<open>\<^verbatim>\<open>Math.round\<close> rounds halves up.\<close>

definition js_round :: "real \<Rightarrow> int" where
  "js_round x = \<lfloor>x + 1 / 2\<rfloor>"

definition updateLogoPosition :: "window \<Rightarrow> state \<Rightarrow> state" where
  "updateLogoPosition win s =
     (case logoOverlay s of None \<Rightarrow> s
      | Some l \<Rightarrow>
          (let height = (case visualViewport win of Some vv \<Rightarrow> vv_height vv | None \<Rightarrow> innerHeight win);
               width = (case visualViewport win of Some vv \<Rightarrow> vv_width vv | None \<Rightarrow> innerWidth win);
               offsetTop = (case visualViewport win of Some vv \<Rightarrow> vv_offsetTop vv | None \<Rightarrow> 0);
               offsetLeft = (case visualViewport win of Some vv \<Rightarrow> vv_offsetLeft vv | None \<Rightarrow> 0);
               offY = (if matchesMobile win then js_round (height * 0.04) else 0)
           in s\<lparr>logoOffsetY := offY,
                logoOverlay := Some (l\<lparr>lg_top := offsetTop + height / 2,
                                        lg_left := offsetLeft + width / 2,
                                        lg_translateX := 0, lg_translateY := offY,
                                        lg_scale := 1\<rparr>)\<rparr>))"

text \<open>The saved offset is kept; the page's own scroll position is not tracked.\<close>

definition lockScroll :: "window \<Rightarrow> state \<Rightarrow> state" where
  "lockScroll win s = s\<lparr>scrollY := win_scrollY win, scrollLocked := True\<rparr>"

definition unlockScroll :: "state \<Rightarrow> state" where
  "unlockScroll s = s\<lparr>scrollLocked := False\<rparr>"

definition createCanvas :: "window \<Rightarrow> state \<Rightarrow> state" where
  "createCanvas win s =
     (let s1 = lockScroll win (s\<lparr>bodyLoading := True\<rparr>);
          s2 = s1\<lparr>canvas := Some \<lparr>cv_width = nat \<lfloor>innerWidth win\<rfloor>,
                                   cv_height = nat \<lfloor>innerHeight win\<rfloor>,
                                   cv_opacity = 0, cv_attached = True, cv_pattern = False\<rparr>,
                  resizeListening := True\<rparr>;
          s3 = s2\<lparr>logoOverlay := Some \<lparr>lg_width = (if innerWidth win \<le> 768 then 140 else 200),
                                        lg_height = (if innerWidth win \<le> 768 then 45 else 60),
                                        lg_opacity = 0, lg_top = 0, lg_left = 0,
                                        lg_translateX = 0, lg_translateY = 0, lg_scale = 1,
                                        lg_blur = 0, lg_attached = True\<rparr>\<rparr>;
          s4 = updateLogoPosition win s3
      in s4\<lparr>logoTimers := Suc (logoTimers s4)\<rparr>)"

definition setupWebGL :: "env \<Rightarrow> state \<Rightarrow> state + bool \<times> state" where
  "setupWebGL e s =
     (case canvas s of None \<Rightarrow> Inl s
      | Some c \<Rightarrow>
          if webgl2 e then Inr (True, s\<lparr>gl := Some new_context\<rparr>)
          else Inr (False, s\<lparr>gl := None\<rparr>))"

definition createTexture :: "target \<Rightarrow> nat \<Rightarrow> nat \<Rightarrow> state \<Rightarrow> state + state" where
  "createTexture name w h s =
     (case gl s of None \<Rightarrow> Inl s
      | Some g \<Rightarrow>
          (let (tex, g1) = gl_createTexture g;
               g2 = gl_texImage2D tex w h blackData g1
           in Inr (s\<lparr>gl := Some g2, textures := (textures s)(name \<mapsto> tex)\<rparr>)))"

text \<open>\<^verbatim>\<open>checkFramebufferStatus\<close> only writes to the console.\<close>

definition createFramebuffer :: "handle option \<Rightarrow> state \<Rightarrow> state + handle \<times> state" where
  "createFramebuffer tex s =
     (case gl s of None \<Rightarrow> Inl s
      | Some g \<Rightarrow>
          (let (fb, g1) = gl_createFramebuffer g;
               g2 = gl_framebufferTexture2D fb tex g1
           in Inr (fb, s\<lparr>gl := Some g2\<rparr>)))"

text \<open>\<^verbatim>\<open>this.framebuffers[name] = this.createFramebuffer(this.textures[name])\<close>.\<close>

definition assignFramebuffer :: "target \<Rightarrow> state \<Rightarrow> state + state" where
  "assignFramebuffer name s =
     (case createFramebuffer (textures s name) s of Inl x \<Rightarrow> Inl x
      | Inr (fb, s') \<Rightarrow> Inr (s'\<lparr>framebuffers := (framebuffers s')(name \<mapsto> fb)\<rparr>))"

text \<open>The six deletions inside \<^verbatim>\<open>if (this.textures.bufferA) { ... }\<close>, in source order.\<close>

definition deleteGeneration :: "state \<Rightarrow> glctx \<Rightarrow> glctx" where
  "deleteGeneration s g =
     gl_deleteFramebuffer (framebuffers s bufferAPrev)
       (gl_deleteFramebuffer (framebuffers s bufferB)
         (gl_deleteFramebuffer (framebuffers s bufferA)
           (gl_deleteTexture (textures s bufferAPrev)
             (gl_deleteTexture (textures s bufferB)
               (gl_deleteTexture (textures s bufferA) g)))))"

definition createFramebuffers :: "state \<Rightarrow> state + state" where
  "createFramebuffers s =
     (case canvas s of None \<Rightarrow> Inl s
      | Some c \<Rightarrow>
          (let w = cv_width c; h = cv_height c in
           and_then
             (if textures s bufferA \<noteq> None
              then (case gl s of None \<Rightarrow> Inl s
                    | Some g \<Rightarrow> Inr (s\<lparr>gl := Some (deleteGeneration s g)\<rparr>))
              else Inr s)
             (\<lambda>s. and_then (createTexture bufferA w h s)
             (\<lambda>s. and_then (createTexture bufferB (max 1 (w div 3)) (max 1 (h div 3)) s)
             (\<lambda>s. and_then (createTexture bufferAPrev w h s)
             (\<lambda>s. and_then (assignFramebuffer bufferA s)
             (\<lambda>s. and_then (assignFramebuffer bufferB s)
             (\<lambda>s. assignFramebuffer bufferAPrev s))))))))"

text \<open>Shader objects are not tracked. A program that fails to link has been created but is
  not returned.\<close>

definition compileProgram :: "env \<Rightarrow> pass \<Rightarrow> state \<Rightarrow> state + programInfo option \<times> state" where
  "compileProgram e p s =
     (case gl s of None \<Rightarrow> Inl s
      | Some g \<Rightarrow>
          (case compile e p of
             VSError \<Rightarrow> Inr (None, s)
           | FSError \<Rightarrow> Inr (None, s)
           | LinkError \<Rightarrow> (let (prog, g1) = gl_createProgram g in Inr (None, s\<lparr>gl := Some g1\<rparr>))
           | Linked \<Rightarrow>
               (let (prog, g1) = gl_createProgram g
                in Inr (Some \<lparr>program = prog\<rparr>, s\<lparr>gl := Some (gl_linkProgram prog p g1)\<rparr>))))"

definition compileShaders :: "env \<Rightarrow> state \<Rightarrow> state + bool \<times> state" where
  "compileShaders e s =
     (case compileProgram e bufferA_prog s of Inl x \<Rightarrow> Inl x
      | Inr (bufferAProg, s1) \<Rightarrow>
     (case compileProgram e bufferB_prog s1 of Inl x \<Rightarrow> Inl x
      | Inr (bufferBProg, s2) \<Rightarrow>
     (case compileProgram e image_prog s2 of Inl x \<Rightarrow> Inl x
      | Inr (imageProg, s3) \<Rightarrow>
          if bufferAProg = None \<or> bufferBProg = None \<or> imageProg = None then Inr (False, s3)
          else Inr (True, s3\<lparr>programs := ((programs s3)(bufferA_prog := bufferAProg))
                                 (bufferB_prog := bufferBProg, image_prog := imageProg)\<rparr>))))"

definition createGeometry :: "state \<Rightarrow> state + state" where
  "createGeometry s =
     (case gl s of None \<Rightarrow> Inl s
      | Some g \<Rightarrow> (let (b, g1) = gl_createBuffer g in Inr (s\<lparr>buffer := Some b, gl := Some g1\<rparr>)))"

section \<open>Rendering\<close>

text \<open>
  The third argument of \<^verbatim>\<open>renderPass\<close> is either the literal \<^verbatim>\<open>null\<close> (the canvas) or the
  value of \<^verbatim>\<open>this.framebuffers[..]\<close>, which is \<^verbatim>\<open>undefined\<close> while the key is unset. The
  viewport test compares with \<^verbatim>\<open>===\<close>, which tells the two apart; \<^verbatim>\<open>bindFramebuffer\<close> binds
  the default framebuffer for both.
\<close>

datatype outputFB = Null | Fb "handle option"

definition bound_output :: "outputFB \<Rightarrow> handle option" where
  "bound_output out = (case out of Null \<Rightarrow> None | Fb f \<Rightarrow> f)"

text \<open>\<open>now\<close> is the value \<^verbatim>\<open>performance.now()\<close> returns inside this call.\<close>

definition renderPass ::
  "env \<Rightarrow> real \<Rightarrow> programInfo option \<Rightarrow> handle option list \<Rightarrow> outputFB \<Rightarrow> state \<Rightarrow> state + state" where
  "renderPass e now programInfo inputTextures out s =
     (case programInfo of None \<Rightarrow> Inr s
      | Some p \<Rightarrow>
          (case gl s of None \<Rightarrow> Inl s
           | Some g \<Rightarrow>
               (case canvas s of None \<Rightarrow> Inl s
                | Some c \<Rightarrow>
                    (let vp = (if out = Null then (cv_width c, cv_height c)
                               else if out = Fb (framebuffers s bufferB)
                               then (max 1 (cv_width c div 3), max 1 (cv_height c div 3))
                               else (cv_width c, cv_height c));
                         time = (now - startTime s) / 1000;
                         dc = \<lparr>dc_program = program p, dc_output = bound_output out,
                               dc_viewport = vp, dc_iTime = time,
                               dc_iResolution = (cv_width c, cv_height c),
                               dc_iFrame = frameCount s, dc_inputs = inputTextures\<rparr>
                     in Inr (s\<lparr>gl := Some (gl_drawArrays e dc g)\<rparr>)))))"

text \<open>
  The body of the closure \<^verbatim>\<open>loop\<close> of \<^verbatim>\<open>startRenderLoop\<close>, given the three clock readings
  its three \<^verbatim>\<open>renderPass\<close> calls obtain. The closure's \<^verbatim>\<open>gl\<close> is \<^verbatim>\<open>this.gl\<close> as captured when
  the loop was started; \<^verbatim>\<open>this.gl\<close> is not reassigned afterwards.
\<close>

definition loop :: "env \<Rightarrow> real \<times> real \<times> real \<Rightarrow> state \<Rightarrow> state + state" where
  "loop e nows s =
     (if \<not> isRunning s then Inr s
      else
        and_then (renderPass e (fst nows) (programs s bufferA_prog)
                    [textures s bufferAPrev] (Fb (framebuffers s bufferA)) s)
        (\<lambda>s. and_then (renderPass e (fst (snd nows)) (programs s bufferB_prog)
                    [textures s bufferA] (Fb (framebuffers s bufferB)) s)
        (\<lambda>s. and_then (case gl s of None \<Rightarrow> Inl s | Some g \<Rightarrow> Inr s)
        (\<lambda>s. and_then (renderPass e (snd (snd nows)) (programs s image_prog)
                    [textures s bufferB, textures s bufferA] Null s)
        (\<lambda>s. case gl s of None \<Rightarrow> Inl s
              | Some g \<Rightarrow>
                  (case canvas s of None \<Rightarrow> Inl s
                   | Some c \<Rightarrow>
                       Inr (s\<lparr>gl := Some (gl_blitFramebuffer (framebuffers s bufferA)
                                            (framebuffers s bufferAPrev)
                                            (cv_width c) (cv_height c) g),
                              frameCount := Suc (frameCount s),
                              rafPending := Suc (rafPending s)\<rparr>)))))))"

definition startRenderLoop :: "state \<Rightarrow> state" where
  "startRenderLoop s = s\<lparr>rafPending := Suc (rafPending s)\<rparr>"

section \<open>Transition and teardown\<close>

text \<open>
  \<^verbatim>\<open>Math.sin\<close> and \<^verbatim>\<open>Math.PI\<close> are the real sine and \<open>\<pi>\<close>. In doubles the offset at the end
  of the fade, \<^verbatim>\<open>Math.sin(4 * Math.PI) * 10\<close>, is about \<open>-4.9e-15\<close> where the real value is 0.
\<close>

definition handleTransition :: "real \<Rightarrow> state \<Rightarrow> state + state" where
  "handleTransition progress s =
     (case canvas s of None \<Rightarrow> Inl s
      | Some c \<Rightarrow>
          (let bgFade = min (progress / 0.6) 1;
               s1 = s\<lparr>canvas := Some (c\<lparr>cv_opacity := 1 - bgFade\<rparr>)\<rparr>
           in if progress > 0.4
              then (case logoOverlay s1 of None \<Rightarrow> Inl s1
                    | Some l \<Rightarrow>
                        (let logoFade = (progress - 0.4) / 0.6;
                             logoOpacity = 1 - logoFade;
                             glitchOffset = sin (logoFade * pi * 4) * logoFade * 10
                         in Inr (s1\<lparr>logoOverlay := Some (l\<lparr>lg_opacity := logoOpacity,
                                       lg_translateX := glitchOffset,
                                       lg_translateY := logoOffsetY s1,
                                       lg_scale := 1 + logoFade * 0.2,
                                       lg_blur := logoFade * 5\<rparr>)\<rparr>)))
              else Inr s1))"

text \<open>The callback counts as one call; what the host's callback does is outside the loader.\<close>

definition complete_loader :: "state \<Rightarrow> state" where
  "complete_loader s =
     (let s1 = unlockScroll (s\<lparr>isRunning := False, bodyLoading := False\<rparr>);
          s2 = s1\<lparr>resizeListening := False\<rparr>;
          s3 = s2\<lparr>canvas := map_option (\<lambda>c. c\<lparr>cv_attached := False\<rparr>) (canvas s2)\<rparr>;
          s4 = s3\<lparr>logoOverlay := map_option (\<lambda>l. l\<lparr>lg_attached := False\<rparr>) (logoOverlay s3)\<rparr>;
          s5 = (if onComplete s4 then s4\<lparr>callbackCalls := Suc (callbackCalls s4)\<rparr> else s4)
      in s5\<lparr>eventsDispatched := Suc (eventsDispatched s5)\<rparr>)"

definition startTransition :: "state \<Rightarrow> state" where
  "startTransition s = s\<lparr>intervals := Suc (intervals s)\<rparr>"

text \<open>The callback \<^verbatim>\<open>startTransition\<close> hands to \<^verbatim>\<open>setInterval\<close>; \<open>now\<close> is its clock reading.\<close>

definition transition_tick :: "real \<Rightarrow> state \<Rightarrow> state + state" where
  "transition_tick now s =
     (let elapsed = now - startTime s;
          progress = min ((elapsed - transitionStart s) / transitionDuration s) 1
      in and_then (if progress \<ge> 0 then handleTransition progress s else Inr s)
           (\<lambda>s. if progress \<ge> 1
                 then Inr (complete_loader (s\<lparr>intervals := intervals s - 1\<rparr>))
                 else Inr s))"

definition fallbackToCSS :: "state \<Rightarrow> state + state" where
  "fallbackToCSS s =
     (let s1 = s\<lparr>hasError := True\<rparr> in
      case canvas s1 of None \<Rightarrow> Inl s1
      | Some c \<Rightarrow>
          Inr (s1\<lparr>canvas := Some (c\<lparr>cv_opacity := 1, cv_pattern := True\<rparr>),
                 fallbackStyle := True,
                 transitionTimers := transitionTimers s1 @ [transitionStart s1]\<rparr>))"

text \<open>\<^verbatim>\<open>Object.values\<close> lists the values in insertion order.\<close>

definition destroy :: "state \<Rightarrow> state" where
  "destroy s =
     (let s1 = s\<lparr>isRunning := False\<rparr>;
          s2 = (case gl s1 of None \<Rightarrow> s1
                | Some g \<Rightarrow>
                    (let g1 = fold (\<lambda>p. gl_deleteProgram (program p))
                                (List.map_filter (programs s1) [bufferA_prog, bufferB_prog, image_prog]) g;
                         g2 = fold (\<lambda>fb. gl_deleteFramebuffer (Some fb))
                                (List.map_filter (framebuffers s1) [bufferA, bufferB, bufferAPrev]) g1;
                         g3 = fold (\<lambda>t. gl_deleteTexture (Some t))
                                (List.map_filter (textures s1) [bufferA, bufferB, bufferAPrev]) g2;
                         g4 = (case buffer s1 of None \<Rightarrow> g3 | Some b \<Rightarrow> gl_deleteBuffer b g3)
                     in s1\<lparr>gl := Some g4\<rparr>));
          s3 = s2\<lparr>canvas := map_option (\<lambda>c. c\<lparr>cv_attached := False\<rparr>) (canvas s2)\<rparr>
      in s3\<lparr>logoOverlay := map_option (\<lambda>l. l\<lparr>lg_attached := False\<rparr>) (logoOverlay s3)\<rparr>)"

section \<open>Start-up and resize\<close>

text \<open>The \<^verbatim>\<open>try\<close> block of \<^verbatim>\<open>init\<close>, then \<^verbatim>\<open>init\<close> with its \<^verbatim>\<open>catch\<close>.\<close>

definition init_try :: "env \<Rightarrow> window \<Rightarrow> state \<Rightarrow> state + state" where
  "init_try e win s =
     (case setupWebGL e (createCanvas win s) of Inl x \<Rightarrow> Inl x
      | Inr (ok, s1) \<Rightarrow>
          if \<not> ok then fallbackToCSS s1
          else
            (case createFramebuffers s1 of Inl x \<Rightarrow> Inl x
             | Inr s2 \<Rightarrow>
                 (case compileShaders e s2 of Inl x \<Rightarrow> Inl x
                  | Inr (ok, s3) \<Rightarrow>
                      if \<not> ok then fallbackToCSS s3
                      else
                        (case createGeometry s3 of Inl x \<Rightarrow> Inl x
                         | Inr s4 \<Rightarrow>
                             (case canvas s4 of None \<Rightarrow> Inl s4
                              | Some c \<Rightarrow>
                                  (let s5 = startRenderLoop (s4\<lparr>canvas := Some (c\<lparr>cv_opacity := 1\<rparr>)\<rparr>)
                                   in Inr (s5\<lparr>transitionTimers :=
                                             transitionTimers s5 @ [transitionStart s5]\<rparr>)))))))"

definition init :: "env \<Rightarrow> window \<Rightarrow> state \<Rightarrow> state + state" where
  "init e win s = (case init_try e win s of Inl x \<Rightarrow> fallbackToCSS x | Inr s' \<Rightarrow> Inr s')"

definition handleResize :: "window \<Rightarrow> state \<Rightarrow> state + state" where
  "handleResize win s =
     (case canvas s of None \<Rightarrow> Inr s
      | Some c \<Rightarrow>
          if isTransitioning s then Inr s
          else
            (let newWidth = \<lfloor>innerWidth win\<rfloor>; newHeight = \<lfloor>innerHeight win\<rfloor> in
             if int (cv_width c) = newWidth \<and> int (cv_height c) = newHeight then Inr s
             else
               (let s1 = s\<lparr>canvas := Some (c\<lparr>cv_width := nat newWidth, cv_height := nat newHeight\<rparr>)\<rparr>;
                    s2 = updateLogoPosition win s1
                in if gl s2 \<noteq> None then createFramebuffers s2 else Inr s2)))"

section \<open>The browser's event loop\<close>

text \<open>
  After \<^verbatim>\<open>init\<close> the loader runs only when the browser calls one of the callbacks it
  registered: the animation frame, the resize listeners, the 500 ms logo timer, the
  transition timer, and the interval. A frame brings the three clock readings of its
  passes; the interval brings one. The host page may assign \<^verbatim>\<open>onComplete\<close> at any time.
  An exception that escapes a callback is reported by the browser and the loader stays as
  the raise left it.
\<close>

datatype event =
    Frame real real real
  | Resize window
  | LogoTimeout
  | TransitionTimeout
  | Interval real
  | AssignOnComplete bool

definition settle :: "state + state \<Rightarrow> state" where
  "settle r = (case r of Inl s \<Rightarrow> s | Inr s \<Rightarrow> s)"

definition showLogo :: "state \<Rightarrow> state + state" where
  "showLogo s =
     (case logoOverlay s of None \<Rightarrow> Inl s
      | Some l \<Rightarrow> Inr (s\<lparr>logoOverlay := Some (l\<lparr>lg_opacity := 1\<rparr>)\<rparr>))"

fun step :: "env \<Rightarrow> event \<Rightarrow> state \<Rightarrow> state" where
  "step e (Frame a b c) s =
     (if rafPending s = 0 then s
      else settle (loop e (a, b, c) (s\<lparr>rafPending := rafPending s - 1\<rparr>)))"
| "step e (Resize win) s =
     (if resizeListening s then settle (handleResize win s) else s)"
| "step e LogoTimeout s =
     (if logoTimers s = 0 then s
      else settle (showLogo (s\<lparr>logoTimers := logoTimers s - 1\<rparr>)))"
| "step e TransitionTimeout s =
     (case transitionTimers s of [] \<Rightarrow> s
      | d # ds \<Rightarrow> startTransition (s\<lparr>transitionTimers := ds\<rparr>))"
| "step e (Interval now) s =
     (if intervals s = 0 then s else settle (transition_tick now s))"
| "step e (AssignOnComplete b) s = s\<lparr>onComplete := b\<rparr>"

text \<open>The loader constructed at clock reading \<open>t0\<close>, initialised, then driven by events.\<close>

definition run :: "env \<Rightarrow> real \<Rightarrow> window \<Rightarrow> event list \<Rightarrow> state" where
  "run e t0 win evs = fold (step e) evs (settle (init e win (constructor t0)))"

section \<open>Notions used to state the properties\<close>

text \<open>The texture a key of \<^verbatim>\<open>this.textures\<close> stands for, and one of its pixels.\<close>

definition target_texture :: "state \<Rightarrow> target \<Rightarrow> texture option" where
  "target_texture s k =
     (case gl s of None \<Rightarrow> None
      | Some g \<Rightarrow> (case textures s k of None \<Rightarrow> None | Some t \<Rightarrow> gl_textures g t))"

definition target_pixel :: "state \<Rightarrow> target \<Rightarrow> nat \<Rightarrow> nat \<Rightarrow> rgba option" where
  "target_pixel s k x y =
     (case target_texture s k of None \<Rightarrow> None | Some tx \<Rightarrow> Some (tex_px tx x y))"

text \<open>The calls issued to the context so far, and the \<^verbatim>\<open>iTime\<close> of each draw among them.\<close>

definition loader_log :: "state \<Rightarrow> gl_call list" where
  "loader_log s = (case gl s of None \<Rightarrow> [] | Some g \<Rightarrow> gl_log g)"

fun draw_times :: "gl_call list \<Rightarrow> real list" where
  "draw_times [] = []"
| "draw_times (Draw dc # cs) = dc_iTime dc # draw_times cs"
| "draw_times (c # cs) = draw_times cs"

fun is_delete :: "gl_call \<Rightarrow> bool" where
  "is_delete (DeleteTexture h) = True"
| "is_delete (DeleteFramebuffer h) = True"
| "is_delete (DeleteProgram h) = True"
| "is_delete (DeleteBuffer h) = True"
| "is_delete c = False"

text \<open>The draw call \<^verbatim>\<open>renderPass\<close> assembles from its arguments and the loader.\<close>

definition pass_call ::
  "state \<Rightarrow> canvas_el \<Rightarrow> real \<Rightarrow> programInfo \<Rightarrow> handle option list \<Rightarrow> outputFB \<Rightarrow> draw_call" where
  "pass_call s c now p ins out =
     \<lparr>dc_program = program p, dc_output = bound_output out,
      dc_viewport = (if out = Null then (cv_width c, cv_height c)
                     else if out = Fb (framebuffers s bufferB)
                     then (max 1 (cv_width c div 3), max 1 (cv_height c div 3))
                     else (cv_width c, cv_height c)),
      dc_iTime = (now - startTime s) / 1000,
      dc_iResolution = (cv_width c, cv_height c),
      dc_iFrame = frameCount s, dc_inputs = ins\<rparr>"

text \<open>The context after one pass of \<^verbatim>\<open>loop\<close>: the three draws, then the copy.\<close>

definition tick_context ::
  "env \<Rightarrow> state \<Rightarrow> glctx \<Rightarrow> canvas_el \<Rightarrow> programInfo \<Rightarrow> programInfo \<Rightarrow> programInfo \<Rightarrow>
   real \<Rightarrow> real \<Rightarrow> real \<Rightarrow> glctx" where
  "tick_context e s g c pa pb pim n1 n2 n3 =
     gl_blitFramebuffer (framebuffers s bufferA) (framebuffers s bufferAPrev)
       (cv_width c) (cv_height c)
       (gl_drawArrays e (pass_call s c n3 pim [textures s bufferB, textures s bufferA] Null)
       (gl_drawArrays e (pass_call s c n2 pb [textures s bufferA] (Fb (framebuffers s bufferB)))
       (gl_drawArrays e (pass_call s c n1 pa [textures s bufferAPrev] (Fb (framebuffers s bufferA))) g)))"

text \<open>The calls by which \<^verbatim>\<open>createFramebuffers\<close> deletes the generation the loader holds, and
  the calls by which it allocates the next one from handle \<open>n\<close> on, in source order.\<close>

definition deletions :: "state \<Rightarrow> gl_call list" where
  "deletions s =
     (if textures s bufferA = None then []
      else map DeleteTexture (List.map_filter (textures s) [bufferA, bufferB, bufferAPrev]) @
           map DeleteFramebuffer (List.map_filter (framebuffers s) [bufferA, bufferB, bufferAPrev]))"

definition allocations :: "handle \<Rightarrow> nat \<Rightarrow> nat \<Rightarrow> gl_call list" where
  "allocations n w h =
     [CreateTexture n, TexImage2D n w h,
      CreateTexture (Suc n), TexImage2D (Suc n) (max 1 (w div 3)) (max 1 (h div 3)),
      CreateTexture (Suc (Suc n)), TexImage2D (Suc (Suc n)) w h,
      CreateFramebuffer (Suc (Suc (Suc n))),
      FramebufferTexture2D (Suc (Suc (Suc n))) (Some n),
      CreateFramebuffer (Suc (Suc (Suc (Suc n)))),
      FramebufferTexture2D (Suc (Suc (Suc (Suc n)))) (Some (Suc n)),
      CreateFramebuffer (Suc (Suc (Suc (Suc (Suc n))))),
      FramebufferTexture2D (Suc (Suc (Suc (Suc (Suc n))))) (Some (Suc (Suc n)))]"

definition allocateGeneration :: "nat \<Rightarrow> nat \<Rightarrow> glctx \<Rightarrow> glctx" where
  "allocateGeneration w h g =
     (let n = next_handle g in
      g\<lparr>next_handle := Suc (Suc (Suc (Suc (Suc (Suc n))))),
        gl_textures := (gl_textures g)
          (n \<mapsto> \<lparr>tex_w = w, tex_h = h, tex_px = blackData\<rparr>,
           Suc n \<mapsto> \<lparr>tex_w = max 1 (w div 3), tex_h = max 1 (h div 3), tex_px = blackData\<rparr>,
           Suc (Suc n) \<mapsto> \<lparr>tex_w = w, tex_h = h, tex_px = blackData\<rparr>),
        gl_framebuffers := (gl_framebuffers g)
          (Suc (Suc (Suc n)) \<mapsto> Some n,
           Suc (Suc (Suc (Suc n))) \<mapsto> Some (Suc n),
           Suc (Suc (Suc (Suc (Suc n)))) \<mapsto> Some (Suc (Suc n))),
        gl_log := gl_log g @ allocations n w h\<rparr>)"

text \<open>The loader's keys are either all unset (nothing built yet) or hold handles the
  context has issued.\<close>

definition generation_issued :: "state \<Rightarrow> glctx \<Rightarrow> bool" where
  "generation_issued s g \<longleftrightarrow>
     (textures s bufferA = None \<longrightarrow>
        (\<forall>k \<in> {bufferA, bufferB, bufferAPrev}. textures s k = None \<and> framebuffers s k = None)) \<and>
     (\<forall>k \<in> {bufferA, bufferB, bufferAPrev}.
        (case textures s k of None \<Rightarrow> True | Some t \<Rightarrow> t < next_handle g) \<and>
        (case framebuffers s k of None \<Rightarrow> True | Some f \<Rightarrow> f < next_handle g))"

text \<open>What \<^verbatim>\<open>handleTransition\<close> does to the logo at a given progress.\<close>

definition fade_logo :: "real \<Rightarrow> int \<Rightarrow> logo_el \<Rightarrow> logo_el" where
  "fade_logo progress offY l =
     (if progress > 0.4
      then l\<lparr>lg_opacity := 1 - (progress - 0.4) / 0.6,
             lg_translateX := sin ((progress - 0.4) / 0.6 * pi * 4) * ((progress - 0.4) / 0.6) * 10,
             lg_translateY := offY,
             lg_scale := 1 + (progress - 0.4) / 0.6 * 0.2,
             lg_blur := (progress - 0.4) / 0.6 * 5\<rparr>
      else l)"

text \<open>A platform on which the GPU path can run: a WebGL2 context and three linked programs.\<close>

definition capable :: "env \<Rightarrow> bool" where
  "capable e \<longleftrightarrow>
     webgl2 e \<and> (\<forall>p \<in> {bufferA_prog, bufferB_prog, image_prog}. compile e p = Linked)"

text \<open>The state \<^verbatim>\<open>complete\<close> leaves behind when it has run exactly once: loop stopped, elements
  out of the page, listeners and locks gone, the event dispatched once and the callback
  called once if one was installed (\<open>cb\<close>), no timer left.\<close>

definition finalized :: "bool \<Rightarrow> state \<Rightarrow> bool" where
  "finalized cb s \<longleftrightarrow>
     eventsDispatched s = 1 \<and> callbackCalls s = (if cb then 1 else 0) \<and> \<not> isRunning s \<and>
     intervals s = 0 \<and> transitionTimers s = [] \<and> \<not> resizeListening s \<and>
     \<not> scrollLocked s \<and> \<not> bodyLoading s \<and>
     (case canvas s of None \<Rightarrow> False | Some c \<Rightarrow> \<not> cv_attached c) \<and>
     (case logoOverlay s of None \<Rightarrow> False | Some l \<Rightarrow> \<not> lg_attached l)"

text \<open>An event that cannot bring a loader constructed at \<open>t0\<close> to progress 1: anything but
  an interval callback whose clock reading is \<^verbatim>\<open>transitionStart + transitionDuration\<close>, 6500 ms,
  or more past \<open>t0\<close>.\<close>

fun early :: "real \<Rightarrow> event \<Rightarrow> bool" where
  "early t0 (Interval now) \<longleftrightarrow> now - t0 < 6500"
| "early t0 ev \<longleftrightarrow> True"

subsection \<open>Invariants of the running loader\<close>

definition tex_dims :: "glctx \<Rightarrow> handle \<Rightarrow> (nat \<times> nat) option" where
  "tex_dims g t = map_option (\<lambda>tx. (tex_w tx, tex_h tx)) (gl_textures g t)"

definition same_targets :: "glctx \<Rightarrow> glctx \<Rightarrow> bool" where
  "same_targets g g' \<longleftrightarrow>
     tex_dims g' = tex_dims g \<and> gl_framebuffers g' = gl_framebuffers g \<and>
     next_handle g \<le> next_handle g'"

text \<open>All three targets exist, are distinct, have the sizes the canvas dictates, and each
  framebuffer carries its texture.\<close>

definition targets_built :: "state \<Rightarrow> bool" where
  "targets_built s \<longleftrightarrow>
     (\<exists>g c ta tb tp fa fb fp.
        gl s = Some g \<and> canvas s = Some c \<and>
        textures s bufferA = Some ta \<and> textures s bufferB = Some tb \<and>
        textures s bufferAPrev = Some tp \<and>
        framebuffers s bufferA = Some fa \<and> framebuffers s bufferB = Some fb \<and>
        framebuffers s bufferAPrev = Some fp \<and>
        distinct [ta, tb, tp] \<and> distinct [fa, fb, fp] \<and>
        gl_framebuffers g fa = Some (Some ta) \<and> gl_framebuffers g fb = Some (Some tb) \<and>
        gl_framebuffers g fp = Some (Some tp) \<and>
        tex_dims g ta = Some (cv_width c, cv_height c) \<and>
        tex_dims g tb = Some (max 1 (cv_width c div 3), max 1 (cv_height c div 3)) \<and>
        tex_dims g tp = Some (cv_width c, cv_height c) \<and>
        ta < next_handle g \<and> tb < next_handle g \<and> tp < next_handle g \<and>
        fa < next_handle g \<and> fb < next_handle g \<and> fp < next_handle g)"

definition programs_linked :: "state \<Rightarrow> bool" where
  "programs_linked s \<longleftrightarrow>
     (\<exists>g pa pb pim.
        gl s = Some g \<and> programs s bufferA_prog = Some pa \<and>
        programs s bufferB_prog = Some pb \<and> programs s image_prog = Some pim \<and>
        gl_programs g (program pa) = Some (Some bufferA_prog) \<and>
        gl_programs g (program pb) = Some (Some bufferB_prog) \<and>
        gl_programs g (program pim) = Some (Some image_prog))"

text \<open>What holds between any two callbacks: the elements exist; a context comes with built
  targets; at most one frame callback is pending, and only with linked programs; exactly one
  of transition timer, interval and completed finalization is present.\<close>

definition loader_inv :: "state \<Rightarrow> bool" where
  "loader_inv s \<longleftrightarrow>
     canvas s \<noteq> None \<and> logoOverlay s \<noteq> None \<and>
     (gl s \<noteq> None \<longrightarrow> targets_built s) \<and>
     rafPending s \<le> 1 \<and> (0 < rafPending s \<longrightarrow> programs_linked s) \<and>
     length (transitionTimers s) + intervals s + eventsDispatched s = 1 \<and>
     callbackCalls s \<le> eventsDispatched s \<and>
     (isRunning s \<longleftrightarrow> eventsDispatched s = 0) \<and>
     \<not> isTransitioning s \<and> transitionStart s = 5000 \<and> transitionDuration s = 1500"

text \<open>The loader right after \<^verbatim>\<open>init\<close>.\<close>

definition started :: "env \<Rightarrow> window \<Rightarrow> real \<Rightarrow> state \<Rightarrow> bool" where
  "started e win t0 s \<longleftrightarrow>
     loader_inv s \<and> startTime s = t0 \<and> frameCount s = 0 \<and>
     hasError s = (\<not> capable e) \<and> rafPending s = (if capable e then 1 else 0) \<and>
     transitionTimers s = [5000] \<and> intervals s = 0 \<and> eventsDispatched s = 0 \<and>
     callbackCalls s = 0 \<and> \<not> onComplete s \<and> resizeListening s \<and>
     (gl s = None \<longleftrightarrow> \<not> webgl2 e) \<and>
     (\<forall>k tx. target_texture s k = Some tx \<longrightarrow> tex_px tx = blackData) \<and>
     (\<exists>c. canvas s = Some c \<and> cv_attached c \<and> cv_opacity c = 1 \<and>
          cv_pattern c = (\<not> capable e) \<and>
          cv_width c = nat \<lfloor>innerWidth win\<rfloor> \<and> cv_height c = nat \<lfloor>innerHeight win\<rfloor>)"

subsection \<open>Sample inputs\<close>

text \<open>A capable platform whose programs paint every fragment white, one without WebGL2, one
  whose image program fails to compile, a 6 by 3 window, and a 9 by 6 window.\<close>

definition capable_env :: env where
  "capable_env = \<lparr>webgl2 = True, compile = (\<lambda>p. Linked),
                   shade = (\<lambda>p t r f ins x y. (255, 255, 255, 255))\<rparr>"

definition incapable_env :: env where
  "incapable_env = \<lparr>webgl2 = False, compile = (\<lambda>p. Linked),
                     shade = (\<lambda>p t r f ins x y. (255, 255, 255, 255))\<rparr>"

definition broken_shader_env :: env where
  "broken_shader_env = \<lparr>webgl2 = True,
                         compile = (\<lambda>p. if p = image_prog then FSError else Linked),
                         shade = (\<lambda>p t r f ins x y. (255, 255, 255, 255))\<rparr>"

definition small_window :: window where
  "small_window = \<lparr>innerWidth = 6, innerHeight = 3, visualViewport = None,
                    matchesMobile = False, win_scrollY = 0\<rparr>"

definition resized_window :: window where
  "resized_window = \<lparr>innerWidth = 9, innerHeight = 6, visualViewport = None,
                      matchesMobile = False, win_scrollY = 0\<rparr>"

section \<open>Auxiliary lemmas\<close>

subsection \<open>Draws and copies\<close>

text \<open>Neither changes which objects exist, the size of a texture or an attachment.\<close>

lemma color_attachment_Some:
  "gl_framebuffers g f = Some (Some t) \<Longrightarrow> gl_textures g t = Some tx \<Longrightarrow>
   color_attachment g (Some f) = Some (t, tx)"
  by (simp add: color_attachment_def)

lemma color_attachment_SomeD:
  "color_attachment g f = Some (t, tx) \<Longrightarrow>
   \<exists>fb. f = Some fb \<and> gl_framebuffers g fb = Some (Some t) \<and> gl_textures g t = Some tx"
  by (auto simp: color_attachment_def split: option.splits)

lemma drawArrays_fields [simp]:
  "next_handle (gl_drawArrays e dc g) = next_handle g"
  "gl_framebuffers (gl_drawArrays e dc g) = gl_framebuffers g"
  "gl_programs (gl_drawArrays e dc g) = gl_programs g"
  "gl_buffers (gl_drawArrays e dc g) = gl_buffers g"
  "gl_log (gl_drawArrays e dc g) = gl_log g @ [Draw dc]"
  by (simp_all add: gl_drawArrays_def Let_def split: option.splits prod.splits)

lemma drawArrays_dims [simp]: "tex_dims (gl_drawArrays e dc g) = tex_dims g"
  by (rule ext)
     (auto simp: gl_drawArrays_def tex_dims_def Let_def
           dest!: color_attachment_SomeD split: option.splits prod.splits)

lemma blitFramebuffer_fields [simp]:
  "next_handle (gl_blitFramebuffer r d x1 y1 g) = next_handle g"
  "gl_framebuffers (gl_blitFramebuffer r d x1 y1 g) = gl_framebuffers g"
  "gl_programs (gl_blitFramebuffer r d x1 y1 g) = gl_programs g"
  "gl_buffers (gl_blitFramebuffer r d x1 y1 g) = gl_buffers g"
  "gl_log (gl_blitFramebuffer r d x1 y1 g) = gl_log g @ [Blit r d x1 y1]"
  by (simp_all add: gl_blitFramebuffer_def Let_def split: option.splits prod.splits)

lemma blitFramebuffer_dims [simp]: "tex_dims (gl_blitFramebuffer r d x1 y1 g) = tex_dims g"
  by (rule ext)
     (auto simp: gl_blitFramebuffer_def tex_dims_def Let_def
           dest!: color_attachment_SomeD split: option.splits prod.splits)

lemma renderPass_Some:
  "gl s = Some g \<Longrightarrow> canvas s = Some c \<Longrightarrow>
   renderPass e now (Some p) ins out s = Inr (s\<lparr>gl := Some (gl_drawArrays e (pass_call s c now p ins out) g)\<rparr>)"
  by (simp add: renderPass_def pass_call_def Let_def)

lemma pass_call_cong [simp]:
  "pass_call (s\<lparr>gl := x\<rparr>) c now p ins out = pass_call s c now p ins out"
  by (simp add: pass_call_def)

lemma loop_running:
  assumes "isRunning s" "gl s = Some g" "canvas s = Some c"
    "programs s bufferA_prog = Some pa" "programs s bufferB_prog = Some pb"
    "programs s image_prog = Some pim"
  shows "loop e (n1, n2, n3) s =
     Inr (s\<lparr>gl := Some (gl_blitFramebuffer (framebuffers s bufferA) (framebuffers s bufferAPrev)
                 (cv_width c) (cv_height c)
                 (gl_drawArrays e (pass_call s c n3 pim [textures s bufferB, textures s bufferA] Null)
                 (gl_drawArrays e (pass_call s c n2 pb [textures s bufferA] (Fb (framebuffers s bufferB)))
                 (gl_drawArrays e (pass_call s c n1 pa [textures s bufferAPrev] (Fb (framebuffers s bufferA))) g)))),
            frameCount := Suc (frameCount s), rafPending := Suc (rafPending s)\<rparr>)"
  using assms by (simp add: loop_def and_then_def renderPass_Some)


subsection \<open>Building the targets\<close>

text \<open>With a context and a canvas, \<^verbatim>\<open>createFramebuffers\<close> returns, and its result is explicit.\<close>

lemma deleteGeneration_next [simp]: "next_handle (deleteGeneration s g) = next_handle g"
  by (simp add: deleteGeneration_def gl_deleteTexture_def gl_deleteFramebuffer_def split: option.splits)

lemma createFramebuffers_eq:
  assumes "gl s = Some g" "canvas s = Some c"
  shows "createFramebuffers s =
     Inr (s\<lparr>gl := Some (allocateGeneration (cv_width c) (cv_height c)
                  (if textures s bufferA \<noteq> None then deleteGeneration s g else g)),
            textures := (textures s)(bufferA \<mapsto> next_handle g, bufferB \<mapsto> Suc (next_handle g),
                                      bufferAPrev \<mapsto> Suc (Suc (next_handle g))),
            framebuffers := (framebuffers s)(bufferA \<mapsto> Suc (Suc (Suc (next_handle g))),
                                              bufferB \<mapsto> Suc (Suc (Suc (Suc (next_handle g)))),
                                              bufferAPrev \<mapsto> Suc (Suc (Suc (Suc (Suc (next_handle g))))))\<rparr>)"
  using assms
  by (simp add: createFramebuffers_def and_then_def createTexture_def assignFramebuffer_def
        createFramebuffer_def allocateGeneration_def allocations_def Let_def
        gl_createTexture_def gl_texImage2D_def gl_createFramebuffer_def gl_framebufferTexture2D_def)


lemma allocateGeneration_fields [simp]:
  "next_handle (allocateGeneration w h g) = Suc (Suc (Suc (Suc (Suc (Suc (next_handle g))))))"
  "gl_programs (allocateGeneration w h g) = gl_programs g"
  "gl_buffers (allocateGeneration w h g) = gl_buffers g"
  by (simp_all add: allocateGeneration_def Let_def)

lemma deleteGeneration_fields [simp]:
  "gl_programs (deleteGeneration s g) = gl_programs g"
  "gl_buffers (deleteGeneration s g) = gl_buffers g"
  by (simp_all add: deleteGeneration_def gl_deleteTexture_def gl_deleteFramebuffer_def split: option.splits)

lemma createFramebuffers_built:
  assumes "gl s = Some g" "canvas s = Some c" "createFramebuffers s = Inr s'"
  shows "targets_built s'"
  using assms
  by (simp add: createFramebuffers_eq targets_built_def)
     (auto simp: allocateGeneration_def Let_def tex_dims_def)


subsection \<open>Compiling the programs\<close>

lemma same_targets_refl [simp]: "same_targets g g"
  by (simp add: same_targets_def)

lemma same_targets_trans: "same_targets g g1 \<Longrightarrow> same_targets g1 g2 \<Longrightarrow> same_targets g g2"
  by (simp add: same_targets_def)

lemma same_targets_draw [simp]: "same_targets g (gl_drawArrays e dc g)"
  by (simp add: same_targets_def)

lemma same_targets_blit [simp]: "same_targets g (gl_blitFramebuffer r d x y g)"
  by (simp add: same_targets_def)

lemma targets_built_gl:
  assumes "targets_built s" "gl s = Some g" "same_targets g g'"
  shows "targets_built (s\<lparr>gl := Some g'\<rparr>)"
  using assms unfolding targets_built_def same_targets_def
  by (auto intro: less_le_trans)

lemma programs_linked_gl:
  assumes "programs_linked s" "gl s = Some g" "gl_programs g' = gl_programs g"
  shows "programs_linked (s\<lparr>gl := Some g'\<rparr>)"
  using assms unfolding programs_linked_def by auto

lemma compileProgram_eq:
  assumes "gl s = Some g"
  shows "compileProgram e p s =
     (if compile e p = Linked
      then Inr (Some \<lparr>program = next_handle g\<rparr>,
                s\<lparr>gl := Some (gl_linkProgram (next_handle g) p (snd (gl_createProgram g)))\<rparr>)
      else if compile e p = LinkError then Inr (None, s\<lparr>gl := Some (snd (gl_createProgram g))\<rparr>)
      else Inr (None, s))"
  using assms by (cases "compile e p") (simp_all add: compileProgram_def gl_createProgram_def)

lemma same_targets_createProgram [simp]: "same_targets g (snd (gl_createProgram g))"
  by (simp add: same_targets_def gl_createProgram_def tex_dims_def fun_eq_iff)

lemma same_targets_linkProgram [simp]: "same_targets g (gl_linkProgram h p g)"
  by (simp add: same_targets_def gl_linkProgram_def tex_dims_def fun_eq_iff)

lemma createProgram_fields [simp]:
  "gl_textures (snd (gl_createProgram g)) = gl_textures g"
  "next_handle (snd (gl_createProgram g)) = Suc (next_handle g)"
  "gl_programs (snd (gl_createProgram g)) = (gl_programs g)(next_handle g \<mapsto> None)"
  "gl_buffers (snd (gl_createProgram g)) = gl_buffers g"
  by (simp_all add: gl_createProgram_def)

lemma linkProgram_fields [simp]:
  "gl_textures (gl_linkProgram h p g) = gl_textures g"
  "next_handle (gl_linkProgram h p g) = next_handle g"
  "gl_programs (gl_linkProgram h p g) = (gl_programs g)(h \<mapsto> Some p)"
  "gl_buffers (gl_linkProgram h p g) = gl_buffers g"
  by (simp_all add: gl_linkProgram_def)

lemma compileProgram_effect:
  assumes "gl s = Some g"
  shows "\<exists>r g'. compileProgram e p s = Inr (r, s\<lparr>gl := Some g'\<rparr>) \<and> same_targets g g' \<and>
           gl_buffers g' = gl_buffers g \<and> gl_textures g' = gl_textures g \<and>
           (r = None \<longleftrightarrow> compile e p \<noteq> Linked) \<and>
           (\<forall>h. h < next_handle g \<longrightarrow> gl_programs g' h = gl_programs g h) \<and>
           (\<forall>pi. r = Some pi \<longrightarrow> program pi < next_handle g' \<and> gl_programs g' (program pi) = Some (Some p))"
proof -
  consider (linked) "compile e p = Linked" | (link_error) "compile e p = LinkError"
    | (other) "compile e p \<noteq> Linked" "compile e p \<noteq> LinkError"
    by blast
  then show ?thesis
  proof cases
    case linked
    let ?g' = "gl_linkProgram (next_handle g) p (snd (gl_createProgram g))"
    have st: "same_targets g ?g'"
      by (rule same_targets_trans[OF same_targets_createProgram same_targets_linkProgram])
    have "compileProgram e p s = Inr (Some \<lparr>program = next_handle g\<rparr>, s\<lparr>gl := Some ?g'\<rparr>)"
      using linked assms by (simp add: compileProgram_eq)
    with st linked show ?thesis
      by (intro exI[where x="Some \<lparr>program = next_handle g\<rparr>"] exI[where x="?g'"]) simp
  next
    case link_error
    let ?g' = "snd (gl_createProgram g)"
    have "compileProgram e p s = Inr (None, s\<lparr>gl := Some ?g'\<rparr>)"
      using link_error assms by (simp add: compileProgram_eq)
    with link_error show ?thesis
      by (intro exI[where x=None] exI[where x="?g'"]) simp
  next
    case other
    have "s\<lparr>gl := Some g\<rparr> = s" using assms by simp
    then have "compileProgram e p s = Inr (None, s\<lparr>gl := Some g\<rparr>)"
      using other assms by (simp add: compileProgram_eq)
    with other show ?thesis
      by (intro exI[where x=None] exI[where x=g]) simp
  qed
qed


lemma compileShaders_effect:
  assumes "gl s = Some g"
  shows "\<exists>ok g' P. compileShaders e s = Inr (ok, s\<lparr>gl := Some g', programs := P\<rparr>) \<and>
           same_targets g g' \<and> gl_buffers g' = gl_buffers g \<and> gl_textures g' = gl_textures g \<and>
           (ok \<longleftrightarrow> (\<forall>p. compile e p = Linked)) \<and>
           (\<not> ok \<longrightarrow> P = programs s) \<and>
           (ok \<longrightarrow> (\<exists>pa pb pim. P bufferA_prog = Some pa \<and> P bufferB_prog = Some pb \<and>
                     P image_prog = Some pim \<and>
                     gl_programs g' (program pa) = Some (Some bufferA_prog) \<and>
                     gl_programs g' (program pb) = Some (Some bufferB_prog) \<and>
                     gl_programs g' (program pim) = Some (Some image_prog)))"
proof -
  obtain r1 g1 where c1: "compileProgram e bufferA_prog s = Inr (r1, s\<lparr>gl := Some g1\<rparr>)"
    and t1: "same_targets g g1" and b1: "gl_buffers g1 = gl_buffers g"
    and x1: "gl_textures g1 = gl_textures g"
    and n1: "r1 = None \<longleftrightarrow> compile e bufferA_prog \<noteq> Linked"
    and l1: "\<forall>pi. r1 = Some pi \<longrightarrow> program pi < next_handle g1 \<and>
                 gl_programs g1 (program pi) = Some (Some bufferA_prog)"
    using compileProgram_effect[OF assms, of e bufferA_prog] by blast
  let ?s1 = "s\<lparr>gl := Some g1\<rparr>"
  have gs1: "gl ?s1 = Some g1" by simp
  obtain r2 g2 where c2: "compileProgram e bufferB_prog ?s1 = Inr (r2, s\<lparr>gl := Some g2\<rparr>)"
    and t2: "same_targets g1 g2" and b2: "gl_buffers g2 = gl_buffers g1"
    and x2: "gl_textures g2 = gl_textures g1"
    and n2: "r2 = None \<longleftrightarrow> compile e bufferB_prog \<noteq> Linked"
    and k2: "\<forall>h. h < next_handle g1 \<longrightarrow> gl_programs g2 h = gl_programs g1 h"
    and l2: "\<forall>pi. r2 = Some pi \<longrightarrow> program pi < next_handle g2 \<and>
                 gl_programs g2 (program pi) = Some (Some bufferB_prog)"
    using compileProgram_effect[OF gs1, of e bufferB_prog] by auto
  let ?s2 = "s\<lparr>gl := Some g2\<rparr>"
  have gs2: "gl ?s2 = Some g2" by simp
  obtain r3 g3 where c3: "compileProgram e image_prog ?s2 = Inr (r3, s\<lparr>gl := Some g3\<rparr>)"
    and t3: "same_targets g2 g3" and b3: "gl_buffers g3 = gl_buffers g2"
    and x3: "gl_textures g3 = gl_textures g2"
    and n3: "r3 = None \<longleftrightarrow> compile e image_prog \<noteq> Linked"
    and k3: "\<forall>h. h < next_handle g2 \<longrightarrow> gl_programs g3 h = gl_programs g2 h"
    and l3: "\<forall>pi. r3 = Some pi \<longrightarrow> program pi < next_handle g3 \<and>
                 gl_programs g3 (program pi) = Some (Some image_prog)"
    using compileProgram_effect[OF gs2, of e image_prog] by auto
  have t: "same_targets g g3"
    using t1 t2 t3 by (blast intro: same_targets_trans)
  have b: "gl_buffers g3 = gl_buffers g" using b1 b2 b3 by simp
  have x: "gl_textures g3 = gl_textures g" using x1 x2 x3 by simp
  have le12: "next_handle g1 \<le> next_handle g2" using t2 by (simp add: same_targets_def)
  have all: "(\<forall>p. compile e p = Linked) \<longleftrightarrow> r1 \<noteq> None \<and> r2 \<noteq> None \<and> r3 \<noteq> None"
  proof
    assume "\<forall>p. compile e p = Linked"
    then show "r1 \<noteq> None \<and> r2 \<noteq> None \<and> r3 \<noteq> None" using n1 n2 n3 by simp
  next
    assume a: "r1 \<noteq> None \<and> r2 \<noteq> None \<and> r3 \<noteq> None"
    show "\<forall>p. compile e p = Linked"
    proof
      fix p show "compile e p = Linked" using a n1 n2 n3 by (cases p) auto
    qed
  qed
  show ?thesis
  proof (cases "r1 = None \<or> r2 = None \<or> r3 = None")
    case True
    have "s\<lparr>gl := Some g3, programs := programs s\<rparr> = s\<lparr>gl := Some g3\<rparr>" by simp
    then have "compileShaders e s = Inr (False, s\<lparr>gl := Some g3, programs := programs s\<rparr>)"
      using True c1 c2 c3 by (simp add: compileShaders_def)
    with t b x all True show ?thesis
      by (intro exI[where x=False] exI[where x=g3] exI[where x="programs s"]) auto
  next
    case False
    then obtain pa pb pim where r: "r1 = Some pa" "r2 = Some pb" "r3 = Some pim" by auto
    let ?P = "((programs s)(bufferA_prog := r1))(bufferB_prog := r2, image_prog := r3)"
    have cs: "compileShaders e s = Inr (True, s\<lparr>gl := Some g3, programs := ?P\<rparr>)"
      using False c1 c2 c3 by (simp add: compileShaders_def)
    have pa: "gl_programs g3 (program pa) = Some (Some bufferA_prog)"
      using l1 r k2 k3 le12 by (metis less_le_trans)
    have pb: "gl_programs g3 (program pb) = Some (Some bufferB_prog)"
      using l2 r k3 by metis
    have pim: "gl_programs g3 (program pim) = Some (Some image_prog)"
      using l3 r by metis
    from cs t b x all False r pa pb pim show ?thesis
      by (intro exI[where x=True] exI[where x=g3] exI[where x="?P"]) simp
  qed
qed


subsection \<open>Every callback keeps the invariant\<close>

lemma targets_built_cong:
  assumes "targets_built s" "gl s' = gl s" "textures s' = textures s"
    "framebuffers s' = framebuffers s"
    "\<exists>c c'. canvas s = Some c \<and> canvas s' = Some c' \<and> cv_width c' = cv_width c \<and> cv_height c' = cv_height c"
  shows "targets_built s'"
  using assms unfolding targets_built_def by auto

lemma programs_linked_cong:
  assumes "programs_linked s" "gl s' = gl s" "programs s' = programs s"
  shows "programs_linked s'"
  using assms unfolding programs_linked_def by auto

lemma inv_frame:
  assumes "loader_inv s"
  shows "loader_inv (step e (Frame a b c) s)"
proof (cases "rafPending s = 0")
  case True
  with assms show ?thesis by simp
next
  case False
  with assms have raf: "rafPending s = 1" and pl: "programs_linked s"
    by (auto simp: loader_inv_def)
  from pl obtain g pa pb pim where g: "gl s = Some g"
    and p: "programs s bufferA_prog = Some pa" "programs s bufferB_prog = Some pb"
      "programs s image_prog = Some pim"
    by (auto simp: programs_linked_def)
  from assms obtain cv where cv: "canvas s = Some cv" by (auto simp: loader_inv_def)
  from assms g have tb: "targets_built s" by (simp add: loader_inv_def)
  let ?s0 = "s\<lparr>rafPending := rafPending s - 1\<rparr>"
  show ?thesis
  proof (cases "isRunning s")
    case False
    with raf assms show ?thesis
      by (auto simp: loop_def settle_def loader_inv_def
            intro: targets_built_cong[where s=s] programs_linked_cong[where s=s])
  next
    case True
    let ?g' = "gl_blitFramebuffer (framebuffers s bufferA) (framebuffers s bufferAPrev)
                 (cv_width cv) (cv_height cv)
                 (gl_drawArrays e (pass_call ?s0 cv c pim [textures s bufferB, textures s bufferA] Null)
                 (gl_drawArrays e (pass_call ?s0 cv b pb [textures s bufferA] (Fb (framebuffers s bufferB)))
                 (gl_drawArrays e (pass_call ?s0 cv a pa [textures s bufferAPrev] (Fb (framebuffers s bufferA))) g)))"
    have lp: "loop e (a, b, c) ?s0 =
       Inr (?s0\<lparr>gl := Some ?g', frameCount := Suc (frameCount s), rafPending := Suc (rafPending ?s0)\<rparr>)"
      using loop_running[of ?s0 g cv pa pb pim e a b c] True g cv p by simp
    have st: "same_targets g ?g'" by (simp add: same_targets_def)
    have tb': "targets_built (s\<lparr>gl := Some ?g'\<rparr>)"
      by (rule targets_built_gl[OF tb g st])
    have pl': "programs_linked (s\<lparr>gl := Some ?g'\<rparr>)"
      by (rule programs_linked_gl[OF pl g]) simp
    from assms raf lp False show ?thesis
      by (auto simp: settle_def loader_inv_def
            intro: targets_built_cong[OF tb'] programs_linked_cong[OF pl'])
  qed
qed


lemma updateLogoPosition_fields [simp]:
  "canvas (updateLogoPosition win s) = canvas s"
  "gl (updateLogoPosition win s) = gl s"
  "textures (updateLogoPosition win s) = textures s"
  "framebuffers (updateLogoPosition win s) = framebuffers s"
  "programs (updateLogoPosition win s) = programs s"
  "rafPending (updateLogoPosition win s) = rafPending s"
  "transitionTimers (updateLogoPosition win s) = transitionTimers s"
  "intervals (updateLogoPosition win s) = intervals s"
  "eventsDispatched (updateLogoPosition win s) = eventsDispatched s"
  "callbackCalls (updateLogoPosition win s) = callbackCalls s"
  "isRunning (updateLogoPosition win s) = isRunning s"
  "isTransitioning (updateLogoPosition win s) = isTransitioning s"
  "transitionStart (updateLogoPosition win s) = transitionStart s"
  "transitionDuration (updateLogoPosition win s) = transitionDuration s"
  "logoOverlay (updateLogoPosition win s) = None \<longleftrightarrow> logoOverlay s = None"
  by (simp_all add: updateLogoPosition_def Let_def split: option.splits)

lemma inv_resize:
  assumes "loader_inv s"
  shows "loader_inv (step e (Resize win) s)"
proof -
  from assms obtain cv where cv: "canvas s = Some cv" by (auto simp: loader_inv_def)
  have nt: "\<not> isTransitioning s" using assms by (simp add: loader_inv_def)
  let ?c' = "cv\<lparr>cv_width := nat \<lfloor>innerWidth win\<rfloor>, cv_height := nat \<lfloor>innerHeight win\<rfloor>\<rparr>"
  let ?s2 = "updateLogoPosition win (s\<lparr>canvas := Some ?c'\<rparr>)"
  consider (off) "\<not> resizeListening s"
    | (same) "int (cv_width cv) = \<lfloor>innerWidth win\<rfloor> \<and> int (cv_height cv) = \<lfloor>innerHeight win\<rfloor>"
    | (nogl) "resizeListening s" "gl s = None"
        "\<not> (int (cv_width cv) = \<lfloor>innerWidth win\<rfloor> \<and> int (cv_height cv) = \<lfloor>innerHeight win\<rfloor>)"
    | (rebuild) g where "resizeListening s" "gl s = Some g"
        "\<not> (int (cv_width cv) = \<lfloor>innerWidth win\<rfloor> \<and> int (cv_height cv) = \<lfloor>innerHeight win\<rfloor>)"
    by (cases "gl s") auto
  then show ?thesis
  proof cases
    case off
    with assms show ?thesis by simp
  next
    case same
    with assms cv show ?thesis by (simp add: handleResize_def settle_def Let_def)
  next
    case nogl
    then have "step e (Resize win) s = ?s2"
      using cv nt by (auto simp: handleResize_def settle_def Let_def)
    with assms nogl show ?thesis
      by (simp add: loader_inv_def programs_linked_def)
  next
    case rebuild
    have g2: "gl ?s2 = Some g" and c2: "canvas ?s2 = Some ?c'" using rebuild by simp_all
    obtain s' where cf: "createFramebuffers ?s2 = Inr s'"
      using createFramebuffers_eq[OF g2 c2] by blast
    have tb: "targets_built s'" by (rule createFramebuffers_built[OF g2 c2 cf])
    have st: "step e (Resize win) s = s'"
      using rebuild cv nt cf by (auto simp: handleResize_def settle_def Let_def)
    have eq: "s' = ?s2\<lparr>gl := Some (allocateGeneration (cv_width ?c') (cv_height ?c')
                  (if textures ?s2 bufferA \<noteq> None then deleteGeneration ?s2 g else g)),
            textures := (textures ?s2)(bufferA \<mapsto> next_handle g, bufferB \<mapsto> Suc (next_handle g),
                                      bufferAPrev \<mapsto> Suc (Suc (next_handle g))),
            framebuffers := (framebuffers ?s2)(bufferA \<mapsto> Suc (Suc (Suc (next_handle g))),
                                              bufferB \<mapsto> Suc (Suc (Suc (Suc (next_handle g)))),
                                              bufferAPrev \<mapsto> Suc (Suc (Suc (Suc (Suc (next_handle g))))))\<rparr>"
      using cf createFramebuffers_eq[OF g2 c2] by simp
    have fields: "canvas s' \<noteq> None" "logoOverlay s' \<noteq> None \<longleftrightarrow> logoOverlay s \<noteq> None"
      "rafPending s' = rafPending s" "transitionTimers s' = transitionTimers s"
      "intervals s' = intervals s" "eventsDispatched s' = eventsDispatched s"
      "callbackCalls s' = callbackCalls s" "isRunning s' = isRunning s"
      "isTransitioning s' = isTransitioning s" "transitionStart s' = transitionStart s"
      "transitionDuration s' = transitionDuration s" "programs s' = programs s"
      by (simp_all add: eq)
    have pl: "programs_linked s \<Longrightarrow> programs_linked s'"
      using rebuild by (auto simp: programs_linked_def eq)
    from assms tb pl fields(1) show ?thesis
      unfolding st loader_inv_def fields(2-) by blast
  qed
qed

lemma inv_logo:
  assumes "loader_inv s"
  shows "loader_inv (step e LogoTimeout s)"
proof (cases "logoTimers s = 0")
  case True
  then show ?thesis using assms by simp
next
  case False
  from assms obtain l where "logoOverlay s = Some l" by (auto simp: loader_inv_def)
  with False assms show ?thesis
    by (auto simp: showLogo_def settle_def loader_inv_def
          intro: targets_built_cong[where s=s] programs_linked_cong[where s=s])
qed

lemma inv_timeout:
  assumes "loader_inv s"
  shows "loader_inv (step e TransitionTimeout s)"
  using assms
  by (cases "transitionTimers s")
     (auto simp: startTransition_def loader_inv_def
          intro: targets_built_cong[where s=s] programs_linked_cong[where s=s])

lemma inv_assign:
  assumes "loader_inv s"
  shows "loader_inv (step e (AssignOnComplete b) s)"
  using assms
  by (auto simp: loader_inv_def
          intro: targets_built_cong[where s=s] programs_linked_cong[where s=s])


lemma handleTransition_Inr:
  assumes "canvas s = Some c" "logoOverlay s = Some l"
  shows "handleTransition p s =
     Inr (s\<lparr>canvas := Some (c\<lparr>cv_opacity := 1 - min (p / 0.6) 1\<rparr>),
            logoOverlay := Some (fade_logo p (logoOffsetY s) l)\<rparr>)"
  using assms by (simp add: handleTransition_def fade_logo_def Let_def)

lemma complete_loader_fields [simp]:
  "gl (complete_loader s) = gl s"
  "programs (complete_loader s) = programs s"
  "textures (complete_loader s) = textures s"
  "framebuffers (complete_loader s) = framebuffers s"
  "buffer (complete_loader s) = buffer s"
  "frameCount (complete_loader s) = frameCount s"
  "rafPending (complete_loader s) = rafPending s"
  "transitionTimers (complete_loader s) = transitionTimers s"
  "intervals (complete_loader s) = intervals s"
  "isRunning (complete_loader s) = False"
  "isTransitioning (complete_loader s) = isTransitioning s"
  "transitionStart (complete_loader s) = transitionStart s"
  "transitionDuration (complete_loader s) = transitionDuration s"
  "onComplete (complete_loader s) = onComplete s"
  "eventsDispatched (complete_loader s) = Suc (eventsDispatched s)"
  "callbackCalls (complete_loader s) = (if onComplete s then Suc (callbackCalls s) else callbackCalls s)"
  "canvas (complete_loader s) = map_option (\<lambda>c. c\<lparr>cv_attached := False\<rparr>) (canvas s)"
  "logoOverlay (complete_loader s) = map_option (\<lambda>l. l\<lparr>lg_attached := False\<rparr>) (logoOverlay s)"
  "resizeListening (complete_loader s) = False"
  "bodyLoading (complete_loader s) = False"
  "scrollLocked (complete_loader s) = False"
  "hasError (complete_loader s) = hasError s"
  "startTime (complete_loader s) = startTime s"
  by (simp_all add: complete_loader_def unlockScroll_def Let_def)

lemma inv_interval:
  assumes "loader_inv s"
  shows "loader_inv (step e (Interval now) s)"
proof (cases "intervals s = 0")
  case True
  then show ?thesis using assms by simp
next
  case False
  from assms obtain c l where c: "canvas s = Some c" and l: "logoOverlay s = Some l"
    by (auto simp: loader_inv_def)
  define p where "p = min ((now - startTime s - transitionStart s) / transitionDuration s) 1"
  define s1 where "s1 = (if p \<ge> 0 then s\<lparr>canvas := Some (c\<lparr>cv_opacity := 1 - min (p / 0.6) 1\<rparr>),
            logoOverlay := Some (fade_logo p (logoOffsetY s) l)\<rparr> else s)"
  have tt: "transition_tick now s =
      Inr (if p \<ge> 1 then complete_loader (s1\<lparr>intervals := intervals s1 - 1\<rparr>) else s1)"
    using c l by (simp add: transition_tick_def Let_def p_def s1_def and_then_def handleTransition_Inr)
  have tb1: "targets_built s \<Longrightarrow> targets_built s1"
    by (rule targets_built_cong[where s=s]) (auto simp: s1_def c)
  have pl1: "programs_linked s \<Longrightarrow> programs_linked s1"
    by (rule programs_linked_cong[where s=s]) (auto simp: s1_def)
  have f1: "gl s1 = gl s" "rafPending s1 = rafPending s" "transitionTimers s1 = transitionTimers s"
    "intervals s1 = intervals s" "eventsDispatched s1 = eventsDispatched s"
    "callbackCalls s1 = callbackCalls s" "isRunning s1 = isRunning s"
    "isTransitioning s1 = isTransitioning s" "transitionStart s1 = transitionStart s"
    "transitionDuration s1 = transitionDuration s" "canvas s1 \<noteq> None" "logoOverlay s1 \<noteq> None"
    by (simp_all add: s1_def c l)
  have inv1: "loader_inv s1"
    using assms tb1 pl1 unfolding loader_inv_def f1(1-10) using f1(11,12) by blast
  show ?thesis
  proof (cases "p \<ge> 1")
    case False
    with tt \<open>intervals s \<noteq> 0\<close> inv1 show ?thesis by (simp add: settle_def)
  next
    case True
    let ?s2 = "s1\<lparr>intervals := intervals s1 - 1\<rparr>"
    have tb2: "targets_built s1 \<Longrightarrow> targets_built (complete_loader ?s2)"
      by (rule targets_built_cong[where s=s1]) (auto simp: targets_built_def)
    have pl2: "programs_linked s1 \<Longrightarrow> programs_linked (complete_loader ?s2)"
      by (rule programs_linked_cong[where s=s1]) auto
    have sum1: "length (transitionTimers s1) + intervals s1 + eventsDispatched s1 = 1"
      using inv1 by (simp add: loader_inv_def)
    have pos: "0 < intervals s1" using \<open>intervals s \<noteq> 0\<close> f1(4) by simp
    have "length (transitionTimers s1) = 0" using sum1 pos by linarith
    then have cnt: "intervals s1 = 1" "transitionTimers s1 = []" "eventsDispatched s1 = 0"
      using sum1 pos by simp_all
    have "loader_inv (complete_loader ?s2)"
      using inv1 tb2 pl2 cnt
      by (auto simp: loader_inv_def)
    with tt True \<open>intervals s \<noteq> 0\<close> show ?thesis by (simp add: settle_def)
  qed
qed

lemma inv_step: "loader_inv s \<Longrightarrow> loader_inv (step e ev s)"
  by (cases ev) (simp_all only: inv_frame inv_resize inv_logo inv_timeout inv_interval inv_assign)

lemma inv_fold: "loader_inv s \<Longrightarrow> loader_inv (fold (step e) evs s)"
  by (induction evs arbitrary: s) (simp_all add: inv_step)


subsection \<open>Initialisation establishes it\<close>

lemma pass_UNIV: "p \<in> {bufferA_prog, bufferB_prog, image_prog}"
  by (cases p) simp_all

lemma capable_all: "capable e \<longleftrightarrow> webgl2 e \<and> (\<forall>p. compile e p = Linked)"
  unfolding capable_def using pass_UNIV by blast

lemma createCanvas_fields:
  "canvas (createCanvas win (constructor t0)) =
     Some \<lparr>cv_width = nat \<lfloor>innerWidth win\<rfloor>, cv_height = nat \<lfloor>innerHeight win\<rfloor>,
           cv_opacity = 0, cv_attached = True, cv_pattern = False\<rparr>"
  "logoOverlay (createCanvas win (constructor t0)) \<noteq> None"
  "gl (createCanvas win (constructor t0)) = None"
  "textures (createCanvas win (constructor t0)) = Map.empty"
  "framebuffers (createCanvas win (constructor t0)) = Map.empty"
  "programs (createCanvas win (constructor t0)) = Map.empty"
  "rafPending (createCanvas win (constructor t0)) = 0"
  "transitionTimers (createCanvas win (constructor t0)) = []"
  "intervals (createCanvas win (constructor t0)) = 0"
  "eventsDispatched (createCanvas win (constructor t0)) = 0"
  "callbackCalls (createCanvas win (constructor t0)) = 0"
  "isRunning (createCanvas win (constructor t0))"
  "\<not> isTransitioning (createCanvas win (constructor t0))"
  "transitionStart (createCanvas win (constructor t0)) = 5000"
  "transitionDuration (createCanvas win (constructor t0)) = 1500"
  "startTime (createCanvas win (constructor t0)) = t0"
  "frameCount (createCanvas win (constructor t0)) = 0"
  "\<not> hasError (createCanvas win (constructor t0))"
  "\<not> onComplete (createCanvas win (constructor t0))"
  "resizeListening (createCanvas win (constructor t0))"
  by (simp_all add: createCanvas_def constructor_def lockScroll_def updateLogoPosition_def Let_def)

lemma target_texture_cong:
  assumes "gl s = Some g" "gl s' = Some g'" "gl_textures g' = gl_textures g"
    "textures s' = textures s"
  shows "target_texture s' k = target_texture s k"
  using assms by (simp add: target_texture_def split: option.splits)

lemma next_handle_if_deleteGeneration [simp]:
  "next_handle (if b then deleteGeneration s g else g) = next_handle g"
  by simp

lemma createFramebuffers_pristine:
  assumes "gl s = Some g" "canvas s = Some c" "createFramebuffers s = Inr s'"
    "target_texture s' k = Some tx"
  shows "tex_px tx = blackData"
  using assms
  by (cases k)
     (auto simp: createFramebuffers_eq target_texture_def allocateGeneration_def Let_def)

lemma init_started: "\<exists>s. init e win (constructor t0) = Inr s \<and> started e win t0 s"
proof -
  let ?s0 = "createCanvas win (constructor t0)"
  let ?c0 = "\<lparr>cv_width = nat \<lfloor>innerWidth win\<rfloor>, cv_height = nat \<lfloor>innerHeight win\<rfloor>,
           cv_opacity = 0, cv_attached = True, cv_pattern = False\<rparr>"
  note cf = createCanvas_fields[of win t0]
  show ?thesis
  proof (cases "webgl2 e")
    case False
    then have nc: "\<not> capable e" by (simp add: capable_def)
    have "init e win (constructor t0) =
        Inr (?s0\<lparr>gl := None, hasError := True,
                 canvas := Some (?c0\<lparr>cv_opacity := 1, cv_pattern := True\<rparr>),
                 fallbackStyle := True, transitionTimers := [5000]\<rparr>)"
      using False cf
      by (simp add: init_def init_try_def setupWebGL_def fallbackToCSS_def Let_def)
    then show ?thesis
      using cf nc False
      by (simp add: started_def loader_inv_def target_texture_def)
  next
    case True
    let ?s1 = "?s0\<lparr>gl := Some new_context\<rparr>"
    have g1: "gl ?s1 = Some new_context" and c1: "canvas ?s1 = Some ?c0"
      using cf by simp_all
    obtain s2 where s2: "createFramebuffers ?s1 = Inr s2"
      using createFramebuffers_eq[OF g1 c1] by blast
    have tb2: "targets_built s2" by (rule createFramebuffers_built[OF g1 c1 s2])
    obtain g2 where g2: "gl s2 = Some g2" using tb2 by (auto simp: targets_built_def)
    obtain ok g3 P where cs: "compileShaders e s2 = Inr (ok, s2\<lparr>gl := Some g3, programs := P\<rparr>)"
      and st: "same_targets g2 g3" and x3: "gl_textures g3 = gl_textures g2"
      and okc: "ok \<longleftrightarrow> (\<forall>p. compile e p = Linked)"
      and nP: "\<not> ok \<longrightarrow> P = programs s2"
      and lP: "ok \<longrightarrow> (\<exists>pa pb pim. P bufferA_prog = Some pa \<and> P bufferB_prog = Some pb \<and>
                     P image_prog = Some pim \<and>
                     gl_programs g3 (program pa) = Some (Some bufferA_prog) \<and>
                     gl_programs g3 (program pb) = Some (Some bufferB_prog) \<and>
                     gl_programs g3 (program pim) = Some (Some image_prog))"
      using compileShaders_effect[OF g2, of e] by blast
    let ?s3 = "s2\<lparr>gl := Some g3, programs := P\<rparr>"
    have f2: "canvas s2 = Some ?c0" "logoOverlay s2 \<noteq> None" "rafPending s2 = 0"
      "transitionTimers s2 = []" "intervals s2 = 0" "eventsDispatched s2 = 0"
      "callbackCalls s2 = 0" "isRunning s2" "\<not> isTransitioning s2"
      "transitionStart s2 = 5000" "transitionDuration s2 = 1500" "startTime s2 = t0"
      "frameCount s2 = 0" "\<not> hasError s2" "\<not> onComplete s2" "resizeListening s2"
      using s2 cf unfolding createFramebuffers_eq[OF g1 c1] by auto
    have tb3: "targets_built ?s3"
      by (rule targets_built_cong[OF targets_built_gl[OF tb2 g2 st]]) (simp_all add: f2)
    have okcap: "ok \<longleftrightarrow> capable e" using okc True by (simp add: capable_all)
    have pr2: "\<forall>k tx. target_texture s2 k = Some tx \<longrightarrow> tex_px tx = blackData"
      using createFramebuffers_pristine[OF g1 c1 s2] by blast
    have t2: "textures ?s3 = textures s2" by simp
    show ?thesis
    proof (cases ok)
      case False
      have "init e win (constructor t0) =
          Inr (?s3\<lparr>hasError := True, canvas := Some (?c0\<lparr>cv_opacity := 1, cv_pattern := True\<rparr>),
                   fallbackStyle := True, transitionTimers := [5000]\<rparr>)"
        using True False s2 cs f2 cf
        by (simp add: init_def init_try_def setupWebGL_def fallbackToCSS_def Let_def)
      moreover have "targets_built (?s3\<lparr>hasError := True,
                   canvas := Some (?c0\<lparr>cv_opacity := 1, cv_pattern := True\<rparr>),
                   fallbackStyle := True, transitionTimers := [5000]\<rparr>)"
        by (rule targets_built_cong[OF tb3]) (simp_all add: f2)
      moreover have "target_texture (?s3\<lparr>hasError := True,
                   canvas := Some (?c0\<lparr>cv_opacity := 1, cv_pattern := True\<rparr>),
                   fallbackStyle := True, transitionTimers := [5000]\<rparr>) k = target_texture s2 k" for k
        by (rule target_texture_cong[OF g2 _ x3]) simp_all
      ultimately show ?thesis
        using f2 False okcap True pr2 by (simp add: started_def loader_inv_def)
    next
      case ok: True
      obtain b g4 where cb: "gl_createBuffer g3 = (b, g4)" by (cases "gl_createBuffer g3")
      have st4: "same_targets g3 g4" and pr4: "gl_programs g4 = gl_programs g3"
        and x4: "gl_textures g4 = gl_textures g2"
        using cb x3 by (auto simp: gl_createBuffer_def same_targets_def tex_dims_def fun_eq_iff)
      let ?s5 = "?s3\<lparr>buffer := Some b, gl := Some g4, canvas := Some (?c0\<lparr>cv_opacity := 1\<rparr>),
                     rafPending := Suc 0, transitionTimers := [5000]\<rparr>"
      have "init e win (constructor t0) = Inr ?s5"
        using True ok s2 cs f2 cf cb
        by (simp add: init_def init_try_def setupWebGL_def createGeometry_def startRenderLoop_def Let_def)
      moreover have "targets_built ?s5"
        by (rule targets_built_cong[OF targets_built_gl[OF tb3 _ st4]]) (simp_all add: f2)
      moreover have "programs_linked ?s5"
        using lP ok pr4 by (auto simp: programs_linked_def)
      moreover have "target_texture ?s5 k = target_texture s2 k" for k
        by (rule target_texture_cong[OF g2 _ x4]) simp_all
      ultimately show ?thesis
        using f2 ok okcap True pr2 by (simp add: started_def loader_inv_def)
    qed
  qed
qed

subsection \<open>Runs\<close>

text \<open>The definitions that evaluate a run on given inputs, and what every run satisfies.\<close>

lemmas loader_defs =
  run_def init_def init_try_def createCanvas_def lockScroll_def updateLogoPosition_def
  setupWebGL_def constructor_def createFramebuffers_def and_then_def createTexture_def
  assignFramebuffer_def createFramebuffer_def deleteGeneration_def new_context_def
  compileShaders_def compileProgram_def createGeometry_def startRenderLoop_def
  fallbackToCSS_def settle_def Let_def
  gl_createTexture_def gl_texImage2D_def gl_deleteTexture_def gl_createFramebuffer_def
  gl_framebufferTexture2D_def gl_deleteFramebuffer_def gl_createProgram_def gl_linkProgram_def
  gl_createBuffer_def

lemma sample_start:
  "canvas (run capable_env 0 small_window []) =
     Some \<lparr>cv_width = 6, cv_height = 3, cv_opacity = 1, cv_attached = True, cv_pattern = False\<rparr>"
  "rafPending (run capable_env 0 small_window []) = 1"
  "isRunning (run capable_env 0 small_window [])"
  "frameCount (run capable_env 0 small_window []) = 0"
  "startTime (run capable_env 0 small_window []) = 0"
  "resizeListening (run capable_env 0 small_window [])"
  by (simp_all add: loader_defs capable_env_def small_window_def)

lemma run_started: "started e win t0 (run e t0 win [])"
  using init_started[of e win t0] by (auto simp: run_def settle_def)

lemma run_append: "run e t0 win (evs @ evs') = fold (step e) evs' (run e t0 win evs)"
  by (simp add: run_def)

lemma run_inv: "loader_inv (run e t0 win evs)"
  using inv_fold[of "run e t0 win []" e evs] run_started[of e win t0] run_append[of e t0 win "[]" evs]
  by (simp add: started_def)

lemmas event_defs =
  fold_simps step.simps startTransition_def transition_tick_def handleTransition_def
  complete_loader_def unlockScroll_def showLogo_def

lemma sample_finished:
  "\<not> isRunning (run capable_env 0 small_window [TransitionTimeout, Interval 6500])"
  "eventsDispatched (run capable_env 0 small_window [TransitionTimeout, Interval 6500]) = 1"
  "intervals (run capable_env 0 small_window [TransitionTimeout, Interval 6500]) = 0"
  by (simp_all add: loader_defs event_defs capable_env_def small_window_def)

lemma pass_call_raf [simp]:
  "pass_call (s\<lparr>rafPending := x\<rparr>) c now p ins out = pass_call s c now p ins out"
  by (simp add: pass_call_def)

lemma frame_step_running:
  assumes "loader_inv s" "0 < rafPending s" "isRunning s"
  shows "\<exists>g c pa pb pim.
     gl s = Some g \<and> canvas s = Some c \<and> programs s bufferA_prog = Some pa \<and>
     programs s bufferB_prog = Some pb \<and> programs s image_prog = Some pim \<and>
     step e (Frame n1 n2 n3) s =
       s\<lparr>gl := Some (tick_context e s g c pa pb pim n1 n2 n3), frameCount := Suc (frameCount s)\<rparr>"
proof -
  from assms have raf: "rafPending s = Suc 0" and pl: "programs_linked s"
    by (auto simp: loader_inv_def)
  from pl obtain g pa pb pim where g: "gl s = Some g"
    and p: "programs s bufferA_prog = Some pa" "programs s bufferB_prog = Some pb"
      "programs s image_prog = Some pim"
    by (auto simp: programs_linked_def)
  from assms obtain c where c: "canvas s = Some c" by (auto simp: loader_inv_def)
  let ?s0 = "s\<lparr>rafPending := rafPending s - 1\<rparr>"
  have lp: "loop e (n1, n2, n3) ?s0 =
      Inr (?s0\<lparr>gl := Some (tick_context e s g c pa pb pim n1 n2 n3),
               frameCount := Suc (frameCount s), rafPending := Suc (rafPending ?s0)\<rparr>)"
    using loop_running[of ?s0 g c pa pb pim e n1 n2 n3] assms(3) g c p
    by (simp add: tick_context_def)
  have "?s0\<lparr>gl := Some (tick_context e s g c pa pb pim n1 n2 n3),
               frameCount := Suc (frameCount s), rafPending := Suc (rafPending ?s0)\<rparr> =
        s\<lparr>gl := Some (tick_context e s g c pa pb pim n1 n2 n3), frameCount := Suc (frameCount s)\<rparr>"
    using raf by simp
  with lp raf have "step e (Frame n1 n2 n3) s =
       s\<lparr>gl := Some (tick_context e s g c pa pb pim n1 n2 n3), frameCount := Suc (frameCount s)\<rparr>"
    by (simp add: settle_def)
  with g c p show ?thesis by blast
qed

lemma frame_step_stopped:
  assumes "\<not> isRunning s"
  shows "loop e nows s = Inr s" and "frameCount (step e (Frame n1 n2 n3) s) = frameCount s"
    and "gl (step e (Frame n1 n2 n3) s) = gl s" and "\<not> isRunning (step e (Frame n1 n2 n3) s)"
  using assms by (simp_all add: loop_def settle_def)

lemma step_other:
  assumes "loader_inv s" "\<forall>n1 n2 n3. ev \<noteq> Frame n1 n2 n3"
  shows "frameCount (step e ev s) = frameCount s \<and> rafPending (step e ev s) = rafPending s \<and>
         startTime (step e ev s) = startTime s \<and> (isRunning (step e ev s) \<longrightarrow> isRunning s)"
proof (cases ev)
  case (Frame a b c)
  with assms show ?thesis by simp
next
  case (Resize win)
  from assms obtain cv where cv: "canvas s = Some cv" by (auto simp: loader_inv_def)
  let ?c' = "cv\<lparr>cv_width := nat \<lfloor>innerWidth win\<rfloor>, cv_height := nat \<lfloor>innerHeight win\<rfloor>\<rparr>"
  let ?s2 = "updateLogoPosition win (s\<lparr>canvas := Some ?c'\<rparr>)"
  have c2: "canvas ?s2 = Some ?c'" by simp
  have u: "frameCount ?s2 = frameCount s" "startTime ?s2 = startTime s"
    by (simp_all add: updateLogoPosition_def Let_def split: option.splits)
  show ?thesis
  proof (cases "gl s")
    case None
    with cv u Resize show ?thesis by (auto simp: handleResize_def settle_def Let_def)
  next
    case (Some g)
    then have g2: "gl ?s2 = Some g" by simp
    show ?thesis
      using cv u Resize Some
      by (auto simp: handleResize_def settle_def Let_def createFramebuffers_eq[OF g2 c2])
  qed
next
  case LogoTimeout
  then show ?thesis by (auto simp: showLogo_def settle_def split: option.splits)
next
  case TransitionTimeout
  then show ?thesis by (auto simp: startTransition_def split: list.splits)
next
  case (Interval now)
  from assms obtain c l where c: "canvas s = Some c" and l: "logoOverlay s = Some l"
    by (auto simp: loader_inv_def)
  with Interval show ?thesis
    by (auto simp: transition_tick_def Let_def and_then_def handleTransition_Inr settle_def)
next
  case (AssignOnComplete b)
  then show ?thesis by simp
qed

lemma stopped_step:
  assumes "loader_inv s" "\<not> isRunning s"
  shows "frameCount (step e ev s) = frameCount s \<and> \<not> isRunning (step e ev s)"
proof (cases "\<exists>n1 n2 n3. ev = Frame n1 n2 n3")
  case True
  then obtain n1 n2 n3 where "ev = Frame n1 n2 n3" by blast
  with frame_step_stopped(2,4)[OF assms(2), of e n1 n2 n3] show ?thesis by simp
next
  case False
  with step_other[OF assms(1), of ev e] assms(2) show ?thesis by auto
qed

lemma stopped_fold:
  assumes "loader_inv s" "\<not> isRunning s"
  shows "frameCount (fold (step e) evs s) = frameCount s \<and> \<not> isRunning (fold (step e) evs s)"
  using assms
proof (induction evs arbitrary: s)
  case Nil
  then show ?case by simp
next
  case (Cons ev evs)
  have i: "loader_inv (step e ev s)" using Cons.prems(1) by (rule inv_step)
  have st: "frameCount (step e ev s) = frameCount s" "\<not> isRunning (step e ev s)"
    using stopped_step[OF Cons.prems] by simp_all
  from Cons.IH[OF i st(2)] st(1) show ?case by simp
qed

subsection \<open>Sample runs\<close>

lemma sample_callback:
  "callbackCalls (run capable_env 0 small_window [AssignOnComplete True, TransitionTimeout, Interval 6500]) = 1"
  "eventsDispatched (run capable_env 0 small_window [AssignOnComplete True, TransitionTimeout, Interval 6500]) = 1"
  "onComplete (run capable_env 0 small_window [AssignOnComplete True, TransitionTimeout, Interval 6500])"
  by (simp_all add: loader_defs event_defs capable_env_def small_window_def)

lemma sample_released:
  "eventsDispatched (run capable_env 0 small_window [TransitionTimeout, Interval 6500]) = 1"
  "\<not> isRunning (run capable_env 0 small_window [TransitionTimeout, Interval 6500])"
  "filter is_delete (loader_log (run capable_env 0 small_window [TransitionTimeout, Interval 6500])) = []"
  "target_texture (run capable_env 0 small_window [TransitionTimeout, Interval 6500]) bufferA =
     Some \<lparr>tex_w = 6, tex_h = 3, tex_px = blackData\<rparr>"
  "buffer (run capable_env 0 small_window [TransitionTimeout, Interval 6500]) \<noteq> None"
  by (simp_all add: loader_defs event_defs capable_env_def small_window_def loader_log_def
        target_texture_def allocations_def)

lemma sample_destroyed:
  "filter is_delete (loader_log (destroy (run capable_env 0 small_window [TransitionTimeout, Interval 6500]))) \<noteq> []"
  "target_texture (destroy (run capable_env 0 small_window [TransitionTimeout, Interval 6500])) bufferA = None"
  by (simp_all add: loader_defs event_defs capable_env_def small_window_def loader_log_def
        target_texture_def allocations_def destroy_def List.map_filter_simps
        gl_deleteProgram_def gl_deleteBuffer_def)

lemma sample_logo:
  "canvas (run capable_env 0 small_window [LogoTimeout]) =
     Some \<lparr>cv_width = 6, cv_height = 3, cv_opacity = 1, cv_attached = True, cv_pattern = False\<rparr>"
  "logoOverlay (run capable_env 0 small_window [LogoTimeout]) =
     Some \<lparr>lg_width = 140, lg_height = 45, lg_opacity = 1, lg_top = 3 / 2, lg_left = 3,
           lg_translateX = 0, lg_translateY = 0, lg_scale = 1, lg_blur = 0, lg_attached = True\<rparr>"
  by (simp_all add: loader_defs event_defs capable_env_def small_window_def)

subsection \<open>The logo fade\<close>

lemma sin_four_pi: "sin (pi * 4) = 0"
  using sin_npi2[of 4] by simp

lemma fade_logo_end:
  "lg_opacity (fade_logo 1 oy l) = 0" "lg_translateX (fade_logo 1 oy l) = 0"
  "lg_blur (fade_logo 1 oy l) = 5" "lg_scale (fade_logo 1 oy l) = 6 / 5"
  by (simp_all add: fade_logo_def sin_four_pi)

subsection \<open>Rebuilding the targets\<close>

lemma deleteGeneration_log:
  "gl_log (deleteGeneration s g) =
     gl_log g @ map DeleteTexture (List.map_filter (textures s) [bufferA, bufferB, bufferAPrev]) @
       map DeleteFramebuffer (List.map_filter (framebuffers s) [bufferA, bufferB, bufferAPrev])"
  by (simp add: deleteGeneration_def gl_deleteTexture_def gl_deleteFramebuffer_def
        List.map_filter_simps split: option.splits)

lemma deleteGeneration_textures:
  "gl_textures (deleteGeneration s g) t =
     (if Some t \<in> {textures s bufferA, textures s bufferB, textures s bufferAPrev} then None
      else gl_textures g t)"
  by (simp add: deleteGeneration_def gl_deleteTexture_def gl_deleteFramebuffer_def
        split: option.splits)

lemma deleteGeneration_framebuffers:
  "gl_framebuffers (deleteGeneration s g) f =
     (if Some f \<in> {framebuffers s bufferA, framebuffers s bufferB, framebuffers s bufferAPrev}
      then None else gl_framebuffers g f)"
  by (simp add: deleteGeneration_def gl_deleteTexture_def gl_deleteFramebuffer_def
        split: option.splits)

lemma target_cases: "k = bufferA \<or> k = bufferB \<or> k = bufferAPrev"
  by (cases k) simp_all

lemma built_generation_issued:
  assumes "targets_built s" "gl s = Some g"
  shows "generation_issued s g"
  using assms by (auto simp: targets_built_def generation_issued_def)

lemma run_generation_issued:
  assumes "gl (run e t0 win evs) = Some g"
  shows "generation_issued (run e t0 win evs) g"
  using run_inv[of e t0 win evs] assms
  by (auto simp: loader_inv_def intro: built_generation_issued)

lemma sample_resized_issued:
  "gl ((run capable_env 0 small_window [])
         \<lparr>canvas := Some \<lparr>cv_width = 800, cv_height = 600, cv_opacity = 1,
                           cv_attached = True, cv_pattern = False\<rparr>\<rparr>) \<noteq> None"
  "generation_issued
     ((run capable_env 0 small_window [])
         \<lparr>canvas := Some \<lparr>cv_width = 800, cv_height = 600, cv_opacity = 1,
                           cv_attached = True, cv_pattern = False\<rparr>\<rparr>)
     (the (gl ((run capable_env 0 small_window [])
         \<lparr>canvas := Some \<lparr>cv_width = 800, cv_height = 600, cv_opacity = 1,
                           cv_attached = True, cv_pattern = False\<rparr>\<rparr>)))"
  by (simp_all add: loader_defs capable_env_def small_window_def generation_issued_def)

subsection \<open>One tick\<close>

lemma pass_call_fields [simp]:
  "dc_program (pass_call s c now p ins out) = program p"
  "dc_output (pass_call s c now p ins out) = bound_output out"
  "dc_iTime (pass_call s c now p ins out) = (now - startTime s) / 1000"
  "dc_iResolution (pass_call s c now p ins out) = (cv_width c, cv_height c)"
  "dc_iFrame (pass_call s c now p ins out) = frameCount s"
  "dc_inputs (pass_call s c now p ins out) = ins"
  "dc_viewport (pass_call s c now p ins Null) = (cv_width c, cv_height c)"
  by (simp_all add: pass_call_def)

lemma pass_call_viewport_fb:
  "dc_viewport (pass_call s c now p ins (Fb f)) =
     (if f = framebuffers s bufferB then (max 1 (cv_width c div 3), max 1 (cv_height c div 3))
      else (cv_width c, cv_height c))"
  by (simp add: pass_call_def)

lemma drawArrays_textures:
  assumes "gl_programs g (dc_program dc) = Some (Some p)"
    and "color_attachment g (dc_output dc) = Some (t, tx)"
  shows "gl_textures (gl_drawArrays e dc g) =
     (gl_textures g)(t \<mapsto> tx\<lparr>tex_px := (\<lambda>x y.
         if x < min (fst (dc_viewport dc)) (tex_w tx) \<and> y < min (snd (dc_viewport dc)) (tex_h tx)
         then shade e p (dc_iTime dc) (dc_iResolution dc) (dc_iFrame dc)
                (bound_textures g (dc_inputs dc)) x y
         else tex_px tx x y)\<rparr>)"
  using assms by (simp add: gl_drawArrays_def Let_def)

lemma drawArrays_textures_canvas:
  assumes "dc_output dc = None"
  shows "gl_textures (gl_drawArrays e dc g) = gl_textures g"
  using assms by (simp add: gl_drawArrays_def Let_def color_attachment_def split: option.splits)

lemma blitFramebuffer_textures:
  assumes "color_attachment g r = Some (ts, src)" and "color_attachment g d = Some (t, dst)"
  shows "gl_textures (gl_blitFramebuffer r d x1 y1 g) =
     (gl_textures g)(t \<mapsto> dst\<lparr>tex_px := (\<lambda>x y.
         if x < x1 \<and> y < y1 \<and> x < tex_w src \<and> y < tex_h src \<and> x < tex_w dst \<and> y < tex_h dst
         then tex_px src x y else tex_px dst x y)\<rparr>)"
  using assms by (simp add: gl_blitFramebuffer_def Let_def)

lemma tick_context_log:
  "gl_log (tick_context e s g c pa pb pim n1 n2 n3) =
     gl_log g @
       [Draw (pass_call s c n1 pa [textures s bufferAPrev] (Fb (framebuffers s bufferA))),
        Draw (pass_call s c n2 pb [textures s bufferA] (Fb (framebuffers s bufferB))),
        Draw (pass_call s c n3 pim [textures s bufferB, textures s bufferA] Null),
        Blit (framebuffers s bufferA) (framebuffers s bufferAPrev) (cv_width c) (cv_height c)]"
  by (simp add: tick_context_def)

lemma tick_context_fields [simp]:
  "gl_programs (tick_context e s g c pa pb pim n1 n2 n3) = gl_programs g"
  "gl_framebuffers (tick_context e s g c pa pb pim n1 n2 n3) = gl_framebuffers g"
  "gl_buffers (tick_context e s g c pa pb pim n1 n2 n3) = gl_buffers g"
  "next_handle (tick_context e s g c pa pb pim n1 n2 n3) = next_handle g"
  "tex_dims (tick_context e s g c pa pb pim n1 n2 n3) = tex_dims g"
  by (simp_all add: tick_context_def)

lemma tex_dimsD:
  "tex_dims g t = Some (w, h) \<Longrightarrow> \<exists>tx. gl_textures g t = Some tx \<and> tex_w tx = w \<and> tex_h tx = h"
  by (auto simp: tex_dims_def)

lemma tick_context_textures:
  assumes g: "gl s = Some g" and c: "canvas s = Some c" and tb: "targets_built s"
    and pa: "programs s bufferA_prog = Some pa" "gl_programs g (program pa) = Some (Some bufferA_prog)"
    and pb: "programs s bufferB_prog = Some pb" "gl_programs g (program pb) = Some (Some bufferB_prog)"
  shows "\<exists>ta tp wk hist wk' hist'.
     textures s bufferA = Some ta \<and> textures s bufferAPrev = Some tp \<and>
     gl_textures g ta = Some wk \<and> gl_textures g tp = Some hist \<and>
     gl_textures (tick_context e s g c pa pb pim n1 n2 n3) ta = Some wk' \<and>
     gl_textures (tick_context e s g c pa pb pim n1 n2 n3) tp = Some hist' \<and>
     tex_w wk' = cv_width c \<and> tex_h wk' = cv_height c \<and>
     tex_w hist' = cv_width c \<and> tex_h hist' = cv_height c \<and>
     tex_w hist = cv_width c \<and> tex_h hist = cv_height c \<and>
     (\<forall>x y. x < cv_width c \<and> y < cv_height c \<longrightarrow>
        tex_px wk' x y =
          shade e bufferA_prog ((n1 - startTime s) / 1000) (cv_width c, cv_height c)
            (frameCount s) [Some hist] x y \<and>
        tex_px hist' x y = tex_px wk' x y)"
proof -
  from tb g c obtain ta tb' tp fa fb fp where
    t: "textures s bufferA = Some ta" "textures s bufferB = Some tb'" "textures s bufferAPrev = Some tp"
    and f: "framebuffers s bufferA = Some fa" "framebuffers s bufferB = Some fb"
       "framebuffers s bufferAPrev = Some fp"
    and d: "ta \<noteq> tb'" "ta \<noteq> tp" "tb' \<noteq> tp" "fa \<noteq> fb" "fa \<noteq> fp" "fb \<noteq> fp"
    and a: "gl_framebuffers g fa = Some (Some ta)" "gl_framebuffers g fb = Some (Some tb')"
       "gl_framebuffers g fp = Some (Some tp)"
    and dm: "tex_dims g ta = Some (cv_width c, cv_height c)"
       "tex_dims g tb' = Some (max 1 (cv_width c div 3), max 1 (cv_height c div 3))"
       "tex_dims g tp = Some (cv_width c, cv_height c)"
    by (auto simp: targets_built_def)
  from tex_dimsD[OF dm(1)] obtain wk where wk: "gl_textures g ta = Some wk"
    "tex_w wk = cv_width c" "tex_h wk = cv_height c" by blast
  from tex_dimsD[OF dm(2)] obtain txb where txb: "gl_textures g tb' = Some txb" by blast
  from tex_dimsD[OF dm(3)] obtain hist where hist: "gl_textures g tp = Some hist"
    "tex_w hist = cv_width c" "tex_h hist = cv_height c" by blast
  let ?dA = "pass_call s c n1 pa [textures s bufferAPrev] (Fb (framebuffers s bufferA))"
  let ?dB = "pass_call s c n2 pb [textures s bufferA] (Fb (framebuffers s bufferB))"
  let ?dI = "pass_call s c n3 pim [textures s bufferB, textures s bufferA] Null"
  let ?g1 = "gl_drawArrays e ?dA g"
  let ?g2 = "gl_drawArrays e ?dB ?g1"
  let ?g3 = "gl_drawArrays e ?dI ?g2"
  let ?PA = "\<lambda>x y. if x < cv_width c \<and> y < cv_height c
       then shade e bufferA_prog ((n1 - startTime s) / 1000) (cv_width c, cv_height c)
              (frameCount s) [Some hist] x y
       else tex_px wk x y"
  let ?wk' = "wk\<lparr>tex_px := ?PA\<rparr>"
  have caA: "color_attachment g (dc_output ?dA) = Some (ta, wk)"
    using f a wk by (simp add: bound_output_def color_attachment_def)
  have vpA: "dc_viewport ?dA = (cv_width c, cv_height c)"
    using f d by (simp add: pass_call_viewport_fb)
  have bt: "bound_textures g [textures s bufferAPrev] = [Some hist]"
    using t hist by (simp add: bound_textures_def)
  have g1: "gl_textures ?g1 = (gl_textures g)(ta \<mapsto> ?wk')"
    using drawArrays_textures[of g ?dA bufferA_prog ta wk e] pa caA
    by (simp add: vpA wk bt cong: if_cong)
  have g1tb: "gl_textures ?g1 tb' = Some txb" using g1 d txb by simp
  have caB: "color_attachment ?g1 (dc_output ?dB) = Some (tb', txb)"
    using f a g1tb by (simp add: bound_output_def color_attachment_def)
  have prB: "gl_programs ?g1 (dc_program ?dB) = Some (Some bufferB_prog)" using pb by simp
  obtain txb' where g2: "gl_textures ?g2 = (gl_textures ?g1)(tb' \<mapsto> txb')"
    using drawArrays_textures[OF prB caB, of e] by blast
  have g3: "gl_textures ?g3 = gl_textures ?g2"
    by (rule drawArrays_textures_canvas) (simp add: bound_output_def)
  have g3ta: "gl_textures ?g3 ta = Some ?wk'" using g3 g2 g1 d by simp
  have g3tp: "gl_textures ?g3 tp = Some hist" using g3 g2 g1 d hist by simp
  have caR: "color_attachment ?g3 (framebuffers s bufferA) = Some (ta, ?wk')"
    using f a g3ta by (simp add: color_attachment_def)
  have caD: "color_attachment ?g3 (framebuffers s bufferAPrev) = Some (tp, hist)"
    using f a g3tp by (simp add: color_attachment_def)
  let ?hist' = "hist\<lparr>tex_px := (\<lambda>x y.
         if x < cv_width c \<and> y < cv_height c \<and> x < tex_w ?wk' \<and> y < tex_h ?wk' \<and>
            x < tex_w hist \<and> y < tex_h hist
         then tex_px ?wk' x y else tex_px hist x y)\<rparr>"
  have g4: "gl_textures (tick_context e s g c pa pb pim n1 n2 n3) = (gl_textures ?g3)(tp \<mapsto> ?hist')"
    unfolding tick_context_def by (rule blitFramebuffer_textures[OF caR caD])
  define wk' where "wk' = ?wk'"
  define hist' where "hist' = ?hist'"
  have r1: "gl_textures (tick_context e s g c pa pb pim n1 n2 n3) ta = Some wk'"
    using g4 g3ta d by (simp add: wk'_def)
  have r2: "gl_textures (tick_context e s g c pa pb pim n1 n2 n3) tp = Some hist'"
    using g4 by (simp add: hist'_def)
  have px: "\<forall>x y. x < cv_width c \<and> y < cv_height c \<longrightarrow>
        tex_px wk' x y =
          shade e bufferA_prog ((n1 - startTime s) / 1000) (cv_width c, cv_height c)
            (frameCount s) [Some hist] x y \<and>
        tex_px hist' x y = tex_px wk' x y"
    using wk hist by (simp add: wk'_def hist'_def)
  have dims: "tex_w wk' = cv_width c" "tex_h wk' = cv_height c"
    "tex_w hist' = cv_width c" "tex_h hist' = cv_height c"
    using wk hist by (simp_all add: wk'_def hist'_def)
  from t(1,3) wk(1) hist r1 r2 dims px show ?thesis by blast
qed

lemma running_tick:
  assumes i: "loader_inv s" and r: "0 < rafPending s" and ir: "isRunning s"
  shows "\<exists>g c pa pb pim ta tb tp fa fb fp wk' hist' hist.
     gl s = Some g \<and> canvas s = Some c \<and>
     programs s bufferA_prog = Some pa \<and> programs s bufferB_prog = Some pb \<and>
     programs s image_prog = Some pim \<and>
     gl_programs g (program pa) = Some (Some bufferA_prog) \<and>
     gl_programs g (program pb) = Some (Some bufferB_prog) \<and>
     gl_programs g (program pim) = Some (Some image_prog) \<and>
     textures s bufferA = Some ta \<and> textures s bufferB = Some tb \<and>
     textures s bufferAPrev = Some tp \<and>
     framebuffers s bufferA = Some fa \<and> framebuffers s bufferB = Some fb \<and>
     framebuffers s bufferAPrev = Some fp \<and>
     gl_framebuffers g fa = Some (Some ta) \<and> gl_framebuffers g fb = Some (Some tb) \<and>
     gl_framebuffers g fp = Some (Some tp) \<and>
     gl_textures g tp = Some hist \<and> tex_w hist = cv_width c \<and> tex_h hist = cv_height c \<and>
     step e (Frame n1 n2 n3) s =
       s\<lparr>gl := Some (tick_context e s g c pa pb pim n1 n2 n3), frameCount := Suc (frameCount s)\<rparr> \<and>
     gl_textures (tick_context e s g c pa pb pim n1 n2 n3) ta = Some wk' \<and>
     gl_textures (tick_context e s g c pa pb pim n1 n2 n3) tp = Some hist' \<and>
     tex_w wk' = cv_width c \<and> tex_h wk' = cv_height c \<and>
     tex_w hist' = cv_width c \<and> tex_h hist' = cv_height c \<and>
     (\<forall>x y. x < cv_width c \<and> y < cv_height c \<longrightarrow>
        tex_px wk' x y =
          shade e bufferA_prog ((n1 - startTime s) / 1000) (cv_width c, cv_height c)
            (frameCount s) [Some hist] x y \<and>
        tex_px hist' x y = tex_px wk' x y)"
proof -
  from frame_step_running[OF i r ir, of e n1 n2 n3]
  obtain g c pa pb pim where
    g: "gl s = Some g" and c: "canvas s = Some c"
    and p: "programs s bufferA_prog = Some pa" "programs s bufferB_prog = Some pb"
      "programs s image_prog = Some pim"
    and st: "step e (Frame n1 n2 n3) s =
       s\<lparr>gl := Some (tick_context e s g c pa pb pim n1 n2 n3), frameCount := Suc (frameCount s)\<rparr>"
    by blast
  from i r have "programs_linked s" by (simp add: loader_inv_def)
  with g p have l: "gl_programs g (program pa) = Some (Some bufferA_prog)"
    "gl_programs g (program pb) = Some (Some bufferB_prog)"
    "gl_programs g (program pim) = Some (Some image_prog)"
    by (auto simp: programs_linked_def)
  from i g have tb: "targets_built s" by (simp add: loader_inv_def)
  from tb g c obtain ta tb' tp fa fb fp where
    t: "textures s bufferA = Some ta" "textures s bufferB = Some tb'" "textures s bufferAPrev = Some tp"
    and f: "framebuffers s bufferA = Some fa" "framebuffers s bufferB = Some fb"
       "framebuffers s bufferAPrev = Some fp"
    and a: "gl_framebuffers g fa = Some (Some ta)" "gl_framebuffers g fb = Some (Some tb')"
       "gl_framebuffers g fp = Some (Some tp)"
    by (auto simp: targets_built_def)
  from tick_context_textures[OF g c tb p(1) l(1) p(2) l(2), of e pim n1 n2 n3] t
  obtain wk hist wk' hist' where
    x: "gl_textures g tp = Some hist"
     "gl_textures (tick_context e s g c pa pb pim n1 n2 n3) ta = Some wk'"
     "gl_textures (tick_context e s g c pa pb pim n1 n2 n3) tp = Some hist'"
     "tex_w wk' = cv_width c" "tex_h wk' = cv_height c"
     "tex_w hist' = cv_width c" "tex_h hist' = cv_height c"
     "tex_w hist = cv_width c" "tex_h hist = cv_height c"
     "\<forall>x y. x < cv_width c \<and> y < cv_height c \<longrightarrow>
        tex_px wk' x y =
          shade e bufferA_prog ((n1 - startTime s) / 1000) (cv_width c, cv_height c)
            (frameCount s) [Some hist] x y \<and>
        tex_px hist' x y = tex_px wk' x y"
    by auto
  from g c p l t f a x st show ?thesis by blast
qed

lemmas frame_defs =
  loop_def renderPass_def gl_drawArrays_def gl_blitFramebuffer_def color_attachment_def
  bound_output_def bound_textures_def

lemma sample_first_tick:
  "draw_times (loader_log (run capable_env 0 small_window [Frame 16 17 18])) =
     [2 / 125, 17 / 1000, 9 / 500]"
  "target_pixel (run capable_env 0 small_window [Frame 16 17 18]) bufferAPrev 0 0 =
     Some (255, 255, 255, 255)"
  "target_pixel (run capable_env 0 small_window [Frame 16 17 18]) bufferA 0 0 =
     Some (255, 255, 255, 255)"
  by (simp_all add: loader_defs event_defs frame_defs capable_env_def small_window_def
        loader_log_def allocations_def target_pixel_def target_texture_def)

lemma capable_sample: "capable capable_env"
  by (simp add: capable_def capable_env_def)

subsection \<open>The fallback path and finalization\<close>

lemma idle_step:
  assumes "loader_inv s" "rafPending s = 0"
  shows "rafPending (step e ev s) = 0 \<and> frameCount (step e ev s) = frameCount s"
proof (cases "\<exists>n1 n2 n3. ev = Frame n1 n2 n3")
  case True
  with assms(2) show ?thesis by auto
next
  case False
  with step_other[OF assms(1), of ev e] assms(2) show ?thesis by auto
qed

lemma idle_fold:
  assumes "loader_inv s" "rafPending s = 0"
  shows "rafPending (fold (step e) evs s) = 0 \<and> frameCount (fold (step e) evs s) = frameCount s"
  using assms
proof (induction evs arbitrary: s)
  case Nil
  then show ?case by simp
next
  case (Cons ev evs)
  have i: "loader_inv (step e ev s)" using Cons.prems(1) by (rule inv_step)
  have st: "rafPending (step e ev s) = 0" "frameCount (step e ev s) = frameCount s"
    using idle_step[OF Cons.prems] by simp_all
  from Cons.IH[OF i st(1)] st(2) show ?case by simp
qed

lemma run_finalized:
  assumes "6500 \<le> now - t0"
  shows "finalized cb (run e t0 win [AssignOnComplete cb, TransitionTimeout, Interval now])"
proof -
  let ?s0 = "run e t0 win []"
  have st: "started e win t0 ?s0" by (rule run_started)
  then have i: "loader_inv ?s0" and tt: "transitionTimers ?s0 = [5000]"
    and f: "intervals ?s0 = 0" "eventsDispatched ?s0 = 0" "callbackCalls ?s0 = 0"
      "startTime ?s0 = t0"
    by (simp_all add: started_def)
  from i obtain c l where c: "canvas ?s0 = Some c" and l: "logoOverlay ?s0 = Some l"
    and ts: "transitionStart ?s0 = 5000" "transitionDuration ?s0 = 1500"
    by (auto simp: loader_inv_def)
  let ?s2 = "?s0\<lparr>onComplete := cb, transitionTimers := [], intervals := Suc 0\<rparr>"
  have r2: "fold (step e) [AssignOnComplete cb, TransitionTimeout] ?s0 = ?s2"
    using tt f by (simp add: startTransition_def)
  have p1: "min ((now - startTime ?s2 - transitionStart ?s2) / transitionDuration ?s2) 1 = 1"
    using assms f ts by simp
  have c2: "canvas ?s2 = Some c" and l2: "logoOverlay ?s2 = Some l" using c l by simp_all
  have tk: "transition_tick now ?s2 =
      Inr (complete_loader
        (?s2\<lparr>canvas := Some (c\<lparr>cv_opacity := 1 - min (1 / 0.6) 1\<rparr>),
              logoOverlay := Some (fade_logo 1 (logoOffsetY ?s2) l),
              intervals := 0\<rparr>))"
    unfolding transition_tick_def Let_def p1
    by (simp add: and_then_def handleTransition_Inr[OF c2 l2])
  have r3: "run e t0 win [AssignOnComplete cb, TransitionTimeout, Interval now] =
      complete_loader
        (?s2\<lparr>canvas := Some (c\<lparr>cv_opacity := 1 - min (1 / 0.6) 1\<rparr>),
              logoOverlay := Some (fade_logo 1 (logoOffsetY ?s2) l),
              intervals := 0\<rparr>)"
    using run_append[of e t0 win "[]" "[AssignOnComplete cb, TransitionTimeout, Interval now]"]
      r2 tk
    by (simp add: settle_def)
  show ?thesis
    unfolding r3 using f by (simp add: finalized_def)
qed

text \<open>The start time never changes; an interval callback before 6500 ms keeps the interval,
  one at or after 6500 ms finalizes; nothing but that callback and the transition timer
  touches the timers.\<close>

lemma step_startTime:
  assumes "loader_inv s"
  shows "startTime (step e ev s) = startTime s"
proof (cases "\<exists>n1 n2 n3. ev = Frame n1 n2 n3")
  case False
  with step_other[OF assms, of ev e] show ?thesis by simp
next
  case True
  then obtain n1 n2 n3 where ev: "ev = Frame n1 n2 n3" by blast
  show ?thesis
  proof (cases "0 < rafPending s \<and> isRunning s")
    case True
    then have r: "0 < rafPending s" "isRunning s" by simp_all
    from frame_step_running[OF assms r, of e n1 n2 n3] ev show ?thesis by auto
  next
    case False
    then show ?thesis using ev by (auto simp: frame_step_stopped(1) settle_def)
  qed
qed

lemma run_startTime: "startTime (run e t0 win evs) = t0"
proof (induction evs rule: rev_induct)
  case Nil
  show ?case using run_started[of e win t0] by (simp add: started_def)
next
  case (snoc ev evs)
  have "run e t0 win (evs @ [ev]) = step e ev (run e t0 win evs)"
    by (simp add: run_append)
  with step_startTime[OF run_inv, of e ev e t0 win evs] snoc show ?case by simp
qed

lemma interval_tick:
  assumes "loader_inv s" "0 < intervals s"
  shows "\<exists>c l. canvas s = Some c \<and> logoOverlay s = Some l \<and>
     intervals s = 1 \<and> transitionTimers s = [] \<and> eventsDispatched s = 0 \<and> callbackCalls s = 0"
proof -
  from assms(1) obtain c l where c: "canvas s = Some c" and l: "logoOverlay s = Some l"
    by (auto simp: loader_inv_def)
  have sum1: "length (transitionTimers s) + intervals s + eventsDispatched s = 1"
    and cb: "callbackCalls s \<le> eventsDispatched s"
    using assms(1) by (simp_all add: loader_inv_def)
  have "length (transitionTimers s) = 0" using sum1 assms(2) by linarith
  then have "intervals s = 1" "transitionTimers s = []" "eventsDispatched s = 0"
    using sum1 assms(2) by simp_all
  with c l cb show ?thesis by simp
qed

lemma interval_finalizes:
  assumes "loader_inv s" "0 < intervals s" "6500 \<le> now - startTime s"
  shows "finalized (onComplete s) (step e (Interval now) s)"
proof -
  from interval_tick[OF assms(1,2)] obtain c l where c: "canvas s = Some c"
    and l: "logoOverlay s = Some l" and n: "intervals s = 1" "transitionTimers s = []"
      "eventsDispatched s = 0" "callbackCalls s = 0"
    by blast
  have ts: "transitionStart s = 5000" "transitionDuration s = 1500"
    using assms(1) by (simp_all add: loader_inv_def)
  have p1: "min ((now - startTime s - transitionStart s) / transitionDuration s) 1 = 1"
    using assms(3) ts by simp
  have tk: "transition_tick now s =
      Inr (complete_loader
        (s\<lparr>canvas := Some (c\<lparr>cv_opacity := 1 - min (1 / 0.6) 1\<rparr>),
           logoOverlay := Some (fade_logo 1 (logoOffsetY s) l),
           intervals := 0\<rparr>))"
    unfolding transition_tick_def Let_def p1
    using n(1) by (simp add: and_then_def handleTransition_Inr[OF c l])
  show ?thesis
    using n tk by (simp add: settle_def finalized_def)
qed

lemma interval_continues:
  assumes "loader_inv s" "0 < intervals s" "now - startTime s < 6500"
  shows "intervals (step e (Interval now) s) = 1 \<and> eventsDispatched (step e (Interval now) s) = 0 \<and>
         isRunning (step e (Interval now) s) \<and> onComplete (step e (Interval now) s) = onComplete s"
proof -
  from interval_tick[OF assms(1,2)] obtain c l where c: "canvas s = Some c"
    and l: "logoOverlay s = Some l" and n: "intervals s = 1" "transitionTimers s = []"
      "eventsDispatched s = 0" "callbackCalls s = 0"
    by blast
  have ts: "transitionStart s = 5000" "transitionDuration s = 1500"
    and r: "isRunning s"
    using assms(1) n(3) by (simp_all add: loader_inv_def)
  define p where "p = min ((now - startTime s - transitionStart s) / transitionDuration s) 1"
  have p1: "\<not> 1 \<le> p" using assms(3) ts by (simp add: p_def)
  have tk: "transition_tick now s =
      Inr (if 0 \<le> p then s\<lparr>canvas := Some (c\<lparr>cv_opacity := 1 - min (p / 0.6) 1\<rparr>),
                             logoOverlay := Some (fade_logo p (logoOffsetY s) l)\<rparr> else s)"
    unfolding transition_tick_def Let_def p_def[symmetric]
    using p1 by (simp add: and_then_def handleTransition_Inr[OF c l])
  show ?thesis using n r tk by (simp add: settle_def)
qed

lemma timeout_starts:
  assumes "loader_inv s" "eventsDispatched s = 0"
  shows "0 < intervals (step e TransitionTimeout s) \<and>
         onComplete (step e TransitionTimeout s) = onComplete s"
proof (cases "transitionTimers s")
  case Nil
  with assms show ?thesis by (simp add: loader_inv_def)
next
  case (Cons d ds)
  then show ?thesis by (simp add: startTransition_def)
qed

lemma step_keeps_timers:
  assumes "loader_inv s" "ev \<noteq> TransitionTimeout" "\<forall>now. ev \<noteq> Interval now"
  shows "transitionTimers (step e ev s) = transitionTimers s \<and>
         intervals (step e ev s) = intervals s \<and>
         eventsDispatched (step e ev s) = eventsDispatched s"
proof (cases ev)
  case (Frame n1 n2 n3)
  show ?thesis
  proof (cases "0 < rafPending s \<and> isRunning s")
    case True
    then have r: "0 < rafPending s" "isRunning s" by simp_all
    from frame_step_running[OF assms(1) r, of e n1 n2 n3] Frame show ?thesis by auto
  next
    case False
    then show ?thesis using Frame by (auto simp: frame_step_stopped(1) settle_def)
  qed
next
  case (Resize win)
  from assms obtain cv where cv: "canvas s = Some cv" by (auto simp: loader_inv_def)
  let ?c' = "cv\<lparr>cv_width := nat \<lfloor>innerWidth win\<rfloor>, cv_height := nat \<lfloor>innerHeight win\<rfloor>\<rparr>"
  let ?s2 = "updateLogoPosition win (s\<lparr>canvas := Some ?c'\<rparr>)"
  have c2: "canvas ?s2 = Some ?c'" by simp
  have u: "transitionTimers ?s2 = transitionTimers s" "intervals ?s2 = intervals s"
    "eventsDispatched ?s2 = eventsDispatched s"
    by (simp_all add: updateLogoPosition_def Let_def split: option.splits)
  show ?thesis
  proof (cases "gl s")
    case None
    with cv u Resize show ?thesis by (auto simp: handleResize_def settle_def Let_def)
  next
    case (Some g)
    then have g2: "gl ?s2 = Some g" by simp
    show ?thesis
      using cv u Resize Some
      by (auto simp: handleResize_def settle_def Let_def createFramebuffers_eq[OF g2 c2])
  qed
next
  case LogoTimeout
  then show ?thesis by (auto simp: showLogo_def settle_def split: option.splits)
next
  case TransitionTimeout
  with assms(2) show ?thesis by simp
next
  case (Interval now)
  with assms(3) show ?thesis by simp
next
  case (AssignOnComplete b)
  then show ?thesis by simp
qed

lemma run_snoc: "run e t0 win (evs @ [ev]) = step e ev (run e t0 win evs)"
  by (simp add: run_append)

lemma run_early:
  assumes "list_all (early t0) evs"
  shows "eventsDispatched (run e t0 win evs) = 0 \<and>
         intervals (run e t0 win evs) = (if TransitionTimeout \<in> set evs then 1 else 0)"
  using assms
proof (induction evs rule: rev_induct)
  case Nil
  show ?case using run_started[of e win t0] by (simp add: started_def)
next
  case (snoc ev evs)
  let ?s = "run e t0 win evs"
  have i: "loader_inv ?s" by (rule run_inv)
  from snoc have ih: "eventsDispatched ?s = 0"
    "intervals ?s = (if TransitionTimeout \<in> set evs then 1 else 0)"
    and ea: "early t0 ev"
    by simp_all
  show ?case
  proof (cases "ev = TransitionTimeout")
    case True
    have pos: "0 < intervals (step e TransitionTimeout ?s)"
      using timeout_starts[OF i ih(1)] by simp
    have ed: "eventsDispatched (step e TransitionTimeout ?s) = 0"
      using ih(1) by (cases "transitionTimers ?s") (simp_all add: startTransition_def)
    have "intervals (step e TransitionTimeout ?s) = 1"
      using interval_tick[OF inv_step[OF i] pos] by blast
    with ed True show ?thesis by (simp add: run_snoc)
  next
    case False
    note nt = this
    show ?thesis
    proof (cases "\<exists>now. ev = Interval now")
      case True
      then obtain now where ev: "ev = Interval now" by blast
      with ea have lt: "now - startTime ?s < 6500" by (simp add: run_startTime)
      show ?thesis
      proof (cases "intervals ?s = 0")
        case True
        with ih ev show ?thesis by (simp add: run_snoc)
      next
        case False
        then have pos: "0 < intervals ?s" by simp
        from False ih(2) have m: "TransitionTimeout \<in> set evs" by (simp split: if_splits)
        from interval_continues[OF i pos lt, of e] ev m show ?thesis by (simp add: run_snoc)
      qed
    next
      case False
      then have "\<forall>now. ev \<noteq> Interval now" by blast
      from step_keeps_timers[OF i nt this, of e] ih nt show ?thesis by (simp add: run_snoc)
    qed
  qed
qed

lemma run_interval_finalizes:
  assumes "0 < intervals (run e t0 win evs)" "6500 \<le> now - t0"
  shows "finalized (onComplete (run e t0 win evs)) (run e t0 win (evs @ [Interval now]))"
  using interval_finalizes[OF run_inv assms(1), of now e] assms(2)
  by (simp add: run_snoc run_startTime)

lemma sample_early:
  "onComplete (run incapable_env 0 small_window
     [AssignOnComplete True, LogoTimeout, TransitionTimeout, Interval 5016, Interval 5900])"
  "onComplete (run capable_env 0 small_window
     [AssignOnComplete True, LogoTimeout, TransitionTimeout, Interval 5016, Interval 5900])"
  by (simp_all add: loader_defs event_defs capable_env_def incapable_env_def small_window_def)


lemma sample_frames:
  "onComplete (run capable_env 0 small_window
     [AssignOnComplete True, Frame 16 17 18, TransitionTimeout, Interval 5016, Frame 5020 5021 5022,
      Interval 5900])"
  by (simp_all add: loader_defs event_defs frame_defs capable_env_def small_window_def)

lemma sample_fallback:
  "\<not> capable incapable_env" "\<not> capable broken_shader_env"
  by (simp_all add: capable_def incapable_env_def broken_shader_env_def)

section \<open>Resize without a change of size\<close>

text \<open>
  Claim C10. When a resize or orientation-change notification arrives and the floored window
  size equals the canvas's current width and height, \<^verbatim>\<open>handleResize\<close> returns before it
  touches anything: the loader, and with it the canvas size and every texture and
  framebuffer, is exactly what it was.
\<close>

theorem handleResize_same_size:
  assumes "canvas s = Some c"
    and "int (cv_width c) = \<lfloor>innerWidth win\<rfloor>" and "int (cv_height c) = \<lfloor>innerHeight win\<rfloor>"
  shows "handleResize win s = Inr s \<and> step e (Resize win) s = s"
  using assms by (simp add: handleResize_def settle_def Let_def)

theorem handleResize_same_size_witness:
  "canvas (run capable_env 0 small_window []) =
     Some \<lparr>cv_width = 6, cv_height = 3, cv_opacity = 1, cv_attached = True, cv_pattern = False\<rparr> \<and>
   \<lfloor>innerWidth small_window\<rfloor> = 6 \<and> \<lfloor>innerHeight small_window\<rfloor> = 3 \<and>
   handleResize small_window (run capable_env 0 small_window []) = Inr (run capable_env 0 small_window []) \<and>
   step capable_env (Resize small_window) (run capable_env 0 small_window []) = run capable_env 0 small_window []"
  using handleResize_same_size[of "run capable_env 0 small_window []" _ small_window capable_env]
    sample_start(1)
  by (simp add: small_window_def)

section \<open>The frame counter\<close>

text \<open>
  Claim C8. In every state the loader can reach, a tick that runs while \<^verbatim>\<open>isRunning\<close> holds
  raises \<^verbatim>\<open>frameCount\<close> by exactly one, and no other callback changes it; once the loader
  is stopped, the loop body returns at once, leaving the loader as it was, and
  \<^verbatim>\<open>frameCount\<close> keeps its value through every later event.
\<close>

theorem frameCount_advances_by_one:
  assumes "s = run e t0 win evs"
  shows "(isRunning s \<and> 0 < rafPending s \<longrightarrow>
            frameCount (step e (Frame n1 n2 n3) s) = Suc (frameCount s)) \<and>
         (\<forall>ev. (\<forall>a b c. ev \<noteq> Frame a b c) \<longrightarrow> frameCount (step e ev s) = frameCount s) \<and>
         (\<not> isRunning s \<longrightarrow>
            loop e (n1, n2, n3) s = Inr s \<and>
            (\<forall>evs'. frameCount (fold (step e) evs' s) = frameCount s \<and>
                    \<not> isRunning (fold (step e) evs' s)))"
proof -
  have i: "loader_inv s" unfolding assms by (rule run_inv)
  have a: "isRunning s \<and> 0 < rafPending s \<longrightarrow>
            frameCount (step e (Frame n1 n2 n3) s) = Suc (frameCount s)"
  proof
    assume r: "isRunning s \<and> 0 < rafPending s"
    then have r1: "0 < rafPending s" and r2: "isRunning s" by simp_all
    from frame_step_running[OF i r1 r2, of e n1 n2 n3]
    obtain g c pa pb pim where "step e (Frame n1 n2 n3) s =
       s\<lparr>gl := Some (tick_context e s g c pa pb pim n1 n2 n3), frameCount := Suc (frameCount s)\<rparr>"
      by blast
    then show "frameCount (step e (Frame n1 n2 n3) s) = Suc (frameCount s)" by simp
  qed
  have b: "\<forall>ev. (\<forall>a b c. ev \<noteq> Frame a b c) \<longrightarrow> frameCount (step e ev s) = frameCount s"
    using step_other[OF i] by blast
  have c: "\<not> isRunning s \<longrightarrow>
            loop e (n1, n2, n3) s = Inr s \<and>
            (\<forall>evs'. frameCount (fold (step e) evs' s) = frameCount s \<and>
                    \<not> isRunning (fold (step e) evs' s))"
    using stopped_fold[OF i] frame_step_stopped(1) by blast
  from a b c show ?thesis by blast
qed

theorem frameCount_advances_by_one_witness:
  "isRunning (run capable_env 0 small_window []) \<and>
   0 < rafPending (run capable_env 0 small_window []) \<and>
   frameCount (step capable_env (Frame 16 17 18) (run capable_env 0 small_window [])) =
     Suc (frameCount (run capable_env 0 small_window [])) \<and>
   frameCount (step capable_env LogoTimeout (run capable_env 0 small_window [])) =
     frameCount (run capable_env 0 small_window []) \<and>
   \<not> isRunning (run capable_env 0 small_window [TransitionTimeout, Interval 6500]) \<and>
   loop capable_env (7000, 7001, 7002) (run capable_env 0 small_window [TransitionTimeout, Interval 6500]) =
     Inr (run capable_env 0 small_window [TransitionTimeout, Interval 6500]) \<and>
   frameCount (fold (step capable_env) [Frame 7000 7001 7002]
       (run capable_env 0 small_window [TransitionTimeout, Interval 6500])) =
     frameCount (run capable_env 0 small_window [TransitionTimeout, Interval 6500])"
proof -
  let ?s0 = "run capable_env 0 small_window []"
  let ?s1 = "run capable_env 0 small_window [TransitionTimeout, Interval 6500]"
  note a = frameCount_advances_by_one[OF refl, of capable_env 0 small_window "[]" 16 17 18]
  note b = frameCount_advances_by_one[OF refl, of capable_env 0 small_window
             "[TransitionTimeout, Interval 6500]" 7000 7001 7002]
  have r: "isRunning ?s0" "0 < rafPending ?s0" using sample_start(2,3) by simp_all
  have 1: "frameCount (step capable_env (Frame 16 17 18) ?s0) = Suc (frameCount ?s0)"
    using a r by blast
  have "\<forall>ev. (\<forall>a b c. ev \<noteq> Frame a b c) \<longrightarrow> frameCount (step capable_env ev ?s0) = frameCount ?s0"
    using a by blast
  from this[rule_format, of LogoTimeout]
  have 2: "frameCount (step capable_env LogoTimeout ?s0) = frameCount ?s0" by simp
  have st: "\<not> isRunning ?s1" by (rule sample_finished(1))
  have 3: "loop capable_env (7000, 7001, 7002) ?s1 = Inr ?s1" using b st by blast
  have "\<forall>evs'. frameCount (fold (step capable_env) evs' ?s1) = frameCount ?s1 \<and>
                    \<not> isRunning (fold (step capable_env) evs' ?s1)"
    using b st by blast
  from this[rule_format, of "[Frame 7000 7001 7002]"]
  have 4: "frameCount (fold (step capable_env) [Frame 7000 7001 7002] ?s1) = frameCount ?s1"
    by blast
  from r 1 2 st 3 4 show ?thesis by blast
qed

section \<open>Finalization\<close>

text \<open>
  Claim C4, as amended. \<^verbatim>\<open>complete\<close> has no already-completed check: every invocation
  dispatches \<^verbatim>\<open>shaderLoaderComplete\<close> once more and, when a callback is installed, calls
  \<^verbatim>\<open>onComplete\<close> once more. In a run driven by the browser's callbacks alone it is reached
  at most once, since one transition timer is scheduled and the interval is cleared before
  \<^verbatim>\<open>complete\<close> is called: the event is dispatched at most once and the callback called at
  most as often.
\<close>

theorem finalization_fires_per_invocation:
  "eventsDispatched (complete_loader s) = Suc (eventsDispatched s) \<and>
   callbackCalls (complete_loader s) = (if onComplete s then Suc (callbackCalls s) else callbackCalls s) \<and>
   eventsDispatched (run e t0 win evs) \<le> 1 \<and>
   callbackCalls (run e t0 win evs) \<le> eventsDispatched (run e t0 win evs)"
  using run_inv[of e t0 win evs] by (simp add: loader_inv_def)

theorem finalization_fires_per_invocation_witness:
  "eventsDispatched (complete_loader (run capable_env 0 small_window [])) =
     Suc (eventsDispatched (run capable_env 0 small_window [])) \<and>
   eventsDispatched (run capable_env 0 small_window
     [AssignOnComplete True, TransitionTimeout, Interval 6500, Interval 6516, Interval 6532]) \<le> 1 \<and>
   callbackCalls (run capable_env 0 small_window
     [AssignOnComplete True, TransitionTimeout, Interval 6500, Interval 6516, Interval 6532]) \<le> 1"
  using finalization_fires_per_invocation[of "run capable_env 0 small_window []" capable_env 0 small_window
     "[AssignOnComplete True, TransitionTimeout, Interval 6500, Interval 6516, Interval 6532]"]
  by linarith

text \<open>
  Claim C4 as stated fails: after the timer-driven finalization, one more invocation of
  \<^verbatim>\<open>complete\<close> brings both counts to two.
\<close>

theorem complete_twice_counterexample:
  "callbackCalls (complete_loader
      (run capable_env 0 small_window [AssignOnComplete True, TransitionTimeout, Interval 6500])) = 2 \<and>
   eventsDispatched (complete_loader
      (run capable_env 0 small_window [AssignOnComplete True, TransitionTimeout, Interval 6500])) = 2"
  using sample_callback by simp

section \<open>The overlay during the transition\<close>

text \<open>
  Claim C7, as amended. For a progress \<open>p\<close> in \<open>[0, 1]\<close>, \<^verbatim>\<open>handleTransition\<close> leaves the logo
  untouched while \<open>p \<le> 0.4\<close> (so its opacity stays at the 1 the logo timer gave it); for
  \<open>p > 0.4\<close> it sets the opacity to \<open>1 - (p - 0.4) / 0.6\<close>, which does not increase with \<open>p\<close>; at
  \<open>p = 1\<close> the opacity is 0 and the oscillatory offset is 0 (in exact arithmetic), while the
  blur is at its largest, 5 px, and the scale is 1.2.
\<close>

theorem overlay_fade_law:
  assumes "canvas s = Some c" and "logoOverlay s = Some l" and "0 \<le> p" and "p \<le> 1"
  shows "\<exists>s' l'. handleTransition p s = Inr s' \<and> logoOverlay s' = Some l' \<and>
           (p \<le> 0.4 \<longrightarrow> l' = l) \<and>
           (0.4 < p \<longrightarrow> lg_opacity l' = 1 - (p - 0.4) / 0.6 \<and> 0 \<le> lg_opacity l' \<and> lg_opacity l' < 1) \<and>
           (\<forall>q s'' l''. 0.4 < p \<and> p \<le> q \<and> q \<le> 1 \<and> handleTransition q s = Inr s'' \<and>
                 logoOverlay s'' = Some l'' \<longrightarrow> lg_opacity l'' \<le> lg_opacity l') \<and>
           (p = 1 \<longrightarrow> lg_opacity l' = 0 \<and> lg_translateX l' = 0 \<and> lg_blur l' = 5 \<and>
                 lg_scale l' = 6 / 5)"
proof -
  let ?l' = "fade_logo p (logoOffsetY s) l"
  let ?s' = "s\<lparr>canvas := Some (c\<lparr>cv_opacity := 1 - min (p / 0.6) 1\<rparr>), logoOverlay := Some ?l'\<rparr>"
  have h: "handleTransition p s = Inr ?s'" by (rule handleTransition_Inr[OF assms(1,2)])
  have a: "p \<le> 0.4 \<longrightarrow> ?l' = l" by (simp add: fade_logo_def)
  have b: "0.4 < p \<longrightarrow> lg_opacity ?l' = 1 - (p - 0.4) / 0.6 \<and> 0 \<le> lg_opacity ?l' \<and> lg_opacity ?l' < 1"
    using assms(4) by (simp add: fade_logo_def)
  have c: "\<forall>q s'' l''. 0.4 < p \<and> p \<le> q \<and> q \<le> 1 \<and> handleTransition q s = Inr s'' \<and>
                 logoOverlay s'' = Some l'' \<longrightarrow> lg_opacity l'' \<le> lg_opacity ?l'"
  proof (intro allI impI)
    fix q s'' l''
    assume q: "0.4 < p \<and> p \<le> q \<and> q \<le> 1 \<and> handleTransition q s = Inr s'' \<and> logoOverlay s'' = Some l''"
    then have "l'' = fade_logo q (logoOffsetY s) l"
      using handleTransition_Inr[OF assms(1,2), of q] by auto
    with q show "lg_opacity l'' \<le> lg_opacity ?l'"
      by (simp add: fade_logo_def divide_right_mono)
  qed
  have d: "p = 1 \<longrightarrow> lg_opacity ?l' = 0 \<and> lg_translateX ?l' = 0 \<and> lg_blur ?l' = 5 \<and> lg_scale ?l' = 6 / 5"
    by (simp add: fade_logo_end)
  have e: "logoOverlay ?s' = Some ?l'" by simp
  from h e a b c d show ?thesis by blast
qed

theorem overlay_fade_law_witness:
  "(\<exists>s' l'. handleTransition 1 (run capable_env 0 small_window [LogoTimeout]) = Inr s' \<and>
       logoOverlay s' = Some l' \<and> lg_opacity l' = 0 \<and> lg_translateX l' = 0 \<and> lg_blur l' = 5) \<and>
   (\<exists>s' l'. handleTransition (1 / 5) (run capable_env 0 small_window [LogoTimeout]) = Inr s' \<and>
       logoOverlay s' = Some l' \<and> lg_opacity l' = 1)"
proof -
  let ?s = "run capable_env 0 small_window [LogoTimeout]"
  let ?l = "\<lparr>lg_width = 140, lg_height = 45, lg_opacity = 1, lg_top = 3 / 2, lg_left = 3,
           lg_translateX = 0, lg_translateY = 0, lg_scale = 1, lg_blur = 0, lg_attached = True\<rparr>"
  have a: "\<exists>s' l'. handleTransition 1 ?s = Inr s' \<and>
       logoOverlay s' = Some l' \<and> lg_opacity l' = 0 \<and> lg_translateX l' = 0 \<and> lg_blur l' = 5"
    using overlay_fade_law[OF sample_logo, of 1] by auto
  have "\<exists>s' l'. handleTransition (1 / 5) ?s = Inr s' \<and> logoOverlay s' = Some l' \<and> l' = ?l"
    using overlay_fade_law[OF sample_logo, of "1 / 5"] by auto
  then have b: "\<exists>s' l'. handleTransition (1 / 5) ?s = Inr s' \<and> logoOverlay s' = Some l' \<and>
       lg_opacity l' = 1"
    by auto
  from a b show ?thesis by blast
qed

text \<open>
  Claim C7 as stated fails in its last part: at \<open>p = 1\<close> the logo's blur is 5 px, not none.
\<close>

theorem overlay_blur_counterexample:
  "map_option lg_blur (logoOverlay (settle (handleTransition 1
      (run capable_env 0 small_window [LogoTimeout])))) = Some 5"
  using sample_logo
  by (simp add: handleTransition_Inr[OF sample_logo] settle_def fade_logo_end)

section \<open>Rebuilding the render targets\<close>

text \<open>
  Claim C2. Whatever the canvas width \<open>w\<close> and height \<open>h\<close>, \<^verbatim>\<open>createFramebuffers\<close> returns with
  the working and history textures of size \<open>(w, h)\<close> and the reduced texture of size
  \<open>(max 1 (w div 3), max 1 (h div 3))\<close>, all black and each behind its framebuffer; every
  texture and framebuffer the loader held before is no longer alive, and the log shows their
  deletions ahead of the first allocation.
\<close>

theorem createFramebuffers_rebuild:
  assumes "gl s = Some g" and "canvas s = Some c" and "generation_issued s g"
  shows "\<exists>s' g' ta tb tp fa fb fp.
      createFramebuffers s = Inr s' \<and> gl s' = Some g' \<and> canvas s' = Some c \<and>
      textures s' bufferA = Some ta \<and> textures s' bufferB = Some tb \<and>
      textures s' bufferAPrev = Some tp \<and>
      framebuffers s' bufferA = Some fa \<and> framebuffers s' bufferB = Some fb \<and>
      framebuffers s' bufferAPrev = Some fp \<and>
      gl_textures g' ta = Some \<lparr>tex_w = cv_width c, tex_h = cv_height c, tex_px = blackData\<rparr> \<and>
      gl_textures g' tp = Some \<lparr>tex_w = cv_width c, tex_h = cv_height c, tex_px = blackData\<rparr> \<and>
      gl_textures g' tb = Some \<lparr>tex_w = max 1 (cv_width c div 3), tex_h = max 1 (cv_height c div 3),
                               tex_px = blackData\<rparr> \<and>
      gl_framebuffers g' fa = Some (Some ta) \<and> gl_framebuffers g' fb = Some (Some tb) \<and>
      gl_framebuffers g' fp = Some (Some tp) \<and>
      (\<forall>k t. textures s k = Some t \<longrightarrow> gl_textures g' t = None) \<and>
      (\<forall>k f. framebuffers s k = Some f \<longrightarrow> gl_framebuffers g' f = None) \<and>
      gl_log g' = gl_log g @ deletions s @ allocations (next_handle g) (cv_width c) (cv_height c)"
proof -
  let ?n = "next_handle g"
  let ?g0 = "if textures s bufferA \<noteq> None then deleteGeneration s g else g"
  let ?g' = "allocateGeneration (cv_width c) (cv_height c) ?g0"
  let ?s' = "s\<lparr>gl := Some ?g',
            textures := (textures s)(bufferA \<mapsto> ?n, bufferB \<mapsto> Suc ?n, bufferAPrev \<mapsto> Suc (Suc ?n)),
            framebuffers := (framebuffers s)(bufferA \<mapsto> Suc (Suc (Suc ?n)),
                                              bufferB \<mapsto> Suc (Suc (Suc (Suc ?n))),
                                              bufferAPrev \<mapsto> Suc (Suc (Suc (Suc (Suc ?n)))))\<rparr>"
  have eq: "createFramebuffers s = Inr ?s'" by (rule createFramebuffers_eq[OF assms(1,2)])
  have n0: "next_handle ?g0 = ?n" by simp
  have tex: "gl_textures ?g' ?n = Some \<lparr>tex_w = cv_width c, tex_h = cv_height c, tex_px = blackData\<rparr>"
    "gl_textures ?g' (Suc (Suc ?n)) = Some \<lparr>tex_w = cv_width c, tex_h = cv_height c, tex_px = blackData\<rparr>"
    "gl_textures ?g' (Suc ?n) = Some \<lparr>tex_w = max 1 (cv_width c div 3),
        tex_h = max 1 (cv_height c div 3), tex_px = blackData\<rparr>"
    by (simp_all add: allocateGeneration_def Let_def n0)
  have fbs: "gl_framebuffers ?g' (Suc (Suc (Suc ?n))) = Some (Some ?n)"
    "gl_framebuffers ?g' (Suc (Suc (Suc (Suc ?n)))) = Some (Some (Suc ?n))"
    "gl_framebuffers ?g' (Suc (Suc (Suc (Suc (Suc ?n))))) = Some (Some (Suc (Suc ?n)))"
    by (simp_all add: allocateGeneration_def Let_def n0)
  have old_t: "gl_textures ?g' t = None" if "textures s k = Some t" for k t
  proof -
    have lt: "t < ?n" using assms(3) that target_cases[of k]
      by (auto simp: generation_issued_def split: option.splits)
    have ne: "textures s bufferA \<noteq> None" using assms(3) that target_cases[of k]
      by (auto simp: generation_issued_def)
    have "Some t \<in> {textures s bufferA, textures s bufferB, textures s bufferAPrev}"
      using that target_cases[of k] by auto
    then have "gl_textures ?g0 t = None" using ne by (simp add: deleteGeneration_textures)
    with lt show ?thesis by (simp add: allocateGeneration_def Let_def n0)
  qed
  have old_f: "gl_framebuffers ?g' f = None" if "framebuffers s k = Some f" for k f
  proof -
    have lt: "f < ?n" using assms(3) that target_cases[of k]
      by (auto simp: generation_issued_def split: option.splits)
    have ne: "textures s bufferA \<noteq> None" using assms(3) that target_cases[of k]
      by (auto simp: generation_issued_def)
    have "Some f \<in> {framebuffers s bufferA, framebuffers s bufferB, framebuffers s bufferAPrev}"
      using that target_cases[of k] by auto
    then have "gl_framebuffers ?g0 f = None" using ne by (simp add: deleteGeneration_framebuffers)
    with lt show ?thesis by (simp add: allocateGeneration_def Let_def n0)
  qed
  have lg: "gl_log ?g' = gl_log g @ deletions s @ allocations ?n (cv_width c) (cv_height c)"
    by (simp add: allocateGeneration_def Let_def deletions_def deleteGeneration_log)
  have fields: "gl ?s' = Some ?g'" "canvas ?s' = Some c"
    "textures ?s' bufferA = Some ?n" "textures ?s' bufferB = Some (Suc ?n)"
    "textures ?s' bufferAPrev = Some (Suc (Suc ?n))"
    "framebuffers ?s' bufferA = Some (Suc (Suc (Suc ?n)))"
    "framebuffers ?s' bufferB = Some (Suc (Suc (Suc (Suc ?n))))"
    "framebuffers ?s' bufferAPrev = Some (Suc (Suc (Suc (Suc (Suc ?n)))))"
    using assms(2) by simp_all
  from eq fields tex fbs old_t old_f lg show ?thesis
    by (intro exI[where x="?s'"] exI[where x="?g'"] exI[where x="?n"] exI[where x="Suc ?n"]
          exI[where x="Suc (Suc ?n)"] exI[where x="Suc (Suc (Suc ?n))"]
          exI[where x="Suc (Suc (Suc (Suc ?n)))"] exI[where x="Suc (Suc (Suc (Suc (Suc ?n))))"])
       (simp only: simp_thms, blast)
qed

theorem createFramebuffers_rebuild_witness:
  "generation_issued
     ((run capable_env 0 small_window [])
         \<lparr>canvas := Some \<lparr>cv_width = 800, cv_height = 600, cv_opacity = 1,
                           cv_attached = True, cv_pattern = False\<rparr>\<rparr>)
     (the (gl ((run capable_env 0 small_window [])
         \<lparr>canvas := Some \<lparr>cv_width = 800, cv_height = 600, cv_opacity = 1,
                           cv_attached = True, cv_pattern = False\<rparr>\<rparr>))) \<and>
   (\<exists>s'. createFramebuffers
            ((run capable_env 0 small_window [])
               \<lparr>canvas := Some \<lparr>cv_width = 800, cv_height = 600, cv_opacity = 1,
                                 cv_attached = True, cv_pattern = False\<rparr>\<rparr>) = Inr s' \<and>
         target_texture s' bufferA = Some \<lparr>tex_w = 800, tex_h = 600, tex_px = blackData\<rparr> \<and>
         target_texture s' bufferAPrev = Some \<lparr>tex_w = 800, tex_h = 600, tex_px = blackData\<rparr> \<and>
         target_texture s' bufferB = Some \<lparr>tex_w = 266, tex_h = 200, tex_px = blackData\<rparr>)"
proof -
  let ?c = "\<lparr>cv_width = 800, cv_height = 600, cv_opacity = 1, cv_attached = True, cv_pattern = False\<rparr>"
  let ?s = "(run capable_env 0 small_window [])\<lparr>canvas := Some ?c\<rparr>"
  have g: "gl ?s = Some (the (gl ?s))" using sample_resized_issued(1) by auto
  have c: "canvas ?s = Some ?c" by simp
  have i: "generation_issued ?s (the (gl ?s))" by (rule sample_resized_issued(2))
  from createFramebuffers_rebuild[OF g c i]
  obtain s' g' ta tb tp where
    "createFramebuffers ?s = Inr s'" "gl s' = Some g'"
    "textures s' bufferA = Some ta" "textures s' bufferB = Some tb" "textures s' bufferAPrev = Some tp"
    "gl_textures g' ta = Some \<lparr>tex_w = cv_width ?c, tex_h = cv_height ?c, tex_px = blackData\<rparr>"
    "gl_textures g' tp = Some \<lparr>tex_w = cv_width ?c, tex_h = cv_height ?c, tex_px = blackData\<rparr>"
    "gl_textures g' tb = Some \<lparr>tex_w = max 1 (cv_width ?c div 3), tex_h = max 1 (cv_height ?c div 3),
                               tex_px = blackData\<rparr>"
    by blast
  then have "createFramebuffers ?s = Inr s' \<and>
         target_texture s' bufferA = Some \<lparr>tex_w = 800, tex_h = 600, tex_px = blackData\<rparr> \<and>
         target_texture s' bufferAPrev = Some \<lparr>tex_w = 800, tex_h = 600, tex_px = blackData\<rparr> \<and>
         target_texture s' bufferB = Some \<lparr>tex_w = 266, tex_h = 200, tex_px = blackData\<rparr>"
    by (simp add: target_texture_def)
  with i show ?thesis by blast
qed

section \<open>One tick of the render loop\<close>

text \<open>
  Claim C1. In every state the loader can reach with the frame callback pending and
  \<^verbatim>\<open>isRunning\<close> set, one tick issues exactly three draws and then one copy, in this order:
  the \<^verbatim>\<open>bufferA\<close> program reading the history texture into the working framebuffer, the
  \<^verbatim>\<open>bufferB\<close> program reading the working texture into the reduced framebuffer, the
  \<^verbatim>\<open>image\<close> program reading the reduced and the working texture onto the canvas, and the
  blit from the working to the history framebuffer; when the tick ends the history texture
  holds the working texture's pixels.
\<close>

theorem tick_runs_three_passes_then_copies:
  assumes "s = run e t0 win evs" and "0 < rafPending s" and "isRunning s"
  shows "\<exists>g g' c pa pb pim ta tb tp fa fb fp dA dB dI wk' hist'.
     gl s = Some g \<and> canvas s = Some c \<and>
     programs s bufferA_prog = Some pa \<and> programs s bufferB_prog = Some pb \<and>
     programs s image_prog = Some pim \<and>
     gl_programs g (program pa) = Some (Some bufferA_prog) \<and>
     gl_programs g (program pb) = Some (Some bufferB_prog) \<and>
     gl_programs g (program pim) = Some (Some image_prog) \<and>
     textures s bufferA = Some ta \<and> textures s bufferB = Some tb \<and>
     textures s bufferAPrev = Some tp \<and>
     framebuffers s bufferA = Some fa \<and> framebuffers s bufferB = Some fb \<and>
     framebuffers s bufferAPrev = Some fp \<and>
     gl_framebuffers g fa = Some (Some ta) \<and> gl_framebuffers g fb = Some (Some tb) \<and>
     gl_framebuffers g fp = Some (Some tp) \<and>
     gl (step e (Frame n1 n2 n3) s) = Some g' \<and>
     textures (step e (Frame n1 n2 n3) s) = textures s \<and>
     framebuffers (step e (Frame n1 n2 n3) s) = framebuffers s \<and>
     gl_log g' = gl_log g @
       [Draw dA, Draw dB, Draw dI, Blit (Some fa) (Some fp) (cv_width c) (cv_height c)] \<and>
     dc_program dA = program pa \<and> dc_inputs dA = [Some tp] \<and> dc_output dA = Some fa \<and>
     dc_program dB = program pb \<and> dc_inputs dB = [Some ta] \<and> dc_output dB = Some fb \<and>
     dc_program dI = program pim \<and> dc_inputs dI = [Some tb, Some ta] \<and> dc_output dI = None \<and>
     gl_textures g' ta = Some wk' \<and> gl_textures g' tp = Some hist' \<and>
     tex_w wk' = cv_width c \<and> tex_h wk' = cv_height c \<and>
     tex_w hist' = cv_width c \<and> tex_h hist' = cv_height c \<and>
     (\<forall>x y. x < cv_width c \<and> y < cv_height c \<longrightarrow> tex_px hist' x y = tex_px wk' x y)"
proof -
  have i: "loader_inv s" unfolding assms(1) by (rule run_inv)
  from running_tick[OF i assms(2,3), of e n1 n2 n3]
  obtain g c pa pb pim ta tb tp fa fb fp wk' hist' where
    b: "gl s = Some g" "canvas s = Some c"
     "programs s bufferA_prog = Some pa" "programs s bufferB_prog = Some pb"
     "programs s image_prog = Some pim"
     "gl_programs g (program pa) = Some (Some bufferA_prog)"
     "gl_programs g (program pb) = Some (Some bufferB_prog)"
     "gl_programs g (program pim) = Some (Some image_prog)"
     "textures s bufferA = Some ta" "textures s bufferB = Some tb"
     "textures s bufferAPrev = Some tp"
     "framebuffers s bufferA = Some fa" "framebuffers s bufferB = Some fb"
     "framebuffers s bufferAPrev = Some fp"
     "gl_framebuffers g fa = Some (Some ta)" "gl_framebuffers g fb = Some (Some tb)"
     "gl_framebuffers g fp = Some (Some tp)"
    and st: "step e (Frame n1 n2 n3) s =
       s\<lparr>gl := Some (tick_context e s g c pa pb pim n1 n2 n3), frameCount := Suc (frameCount s)\<rparr>"
    and x: "gl_textures (tick_context e s g c pa pb pim n1 n2 n3) ta = Some wk'"
     "gl_textures (tick_context e s g c pa pb pim n1 n2 n3) tp = Some hist'"
     "tex_w wk' = cv_width c" "tex_h wk' = cv_height c"
     "tex_w hist' = cv_width c" "tex_h hist' = cv_height c"
    and px: "\<forall>x y. x < cv_width c \<and> y < cv_height c \<longrightarrow>
        tex_px wk' x y =
          shade e bufferA_prog ((n1 - startTime s) / 1000) (cv_width c, cv_height c)
            (frameCount s) [Some (the (gl_textures g tp))] x y \<and>
        tex_px hist' x y = tex_px wk' x y"
    by force
  define g' where "g' = tick_context e s g c pa pb pim n1 n2 n3"
  define dA where "dA = pass_call s c n1 pa [textures s bufferAPrev] (Fb (framebuffers s bufferA))"
  define dB where "dB = pass_call s c n2 pb [textures s bufferA] (Fb (framebuffers s bufferB))"
  define dI where "dI = pass_call s c n3 pim [textures s bufferB, textures s bufferA] Null"
  have s1: "gl (step e (Frame n1 n2 n3) s) = Some g'"
    "textures (step e (Frame n1 n2 n3) s) = textures s"
    "framebuffers (step e (Frame n1 n2 n3) s) = framebuffers s"
    unfolding st g'_def by simp_all
  have lg: "gl_log g' = gl_log g @
       [Draw dA, Draw dB, Draw dI, Blit (Some fa) (Some fp) (cv_width c) (cv_height c)]"
    using b by (simp add: g'_def dA_def dB_def dI_def tick_context_log)
  have d: "dc_program dA = program pa" "dc_inputs dA = [Some tp]" "dc_output dA = Some fa"
    "dc_program dB = program pb" "dc_inputs dB = [Some ta]" "dc_output dB = Some fb"
    "dc_program dI = program pim" "dc_inputs dI = [Some tb, Some ta]" "dc_output dI = None"
    using b by (simp_all add: dA_def dB_def dI_def bound_output_def)
  have x': "gl_textures g' ta = Some wk'" "gl_textures g' tp = Some hist'"
    using x by (simp_all add: g'_def)
  have px': "\<forall>x y. x < cv_width c \<and> y < cv_height c \<longrightarrow> tex_px hist' x y = tex_px wk' x y"
    using px by blast
  from b s1 lg d x' x(3-6) px' show ?thesis by blast
qed

theorem tick_runs_three_passes_then_copies_witness:
  "0 < rafPending (run capable_env 0 small_window []) \<and>
   isRunning (run capable_env 0 small_window []) \<and>
   (\<exists>g g' dA dB dI fa fp ta tp wk' hist'.
      gl (run capable_env 0 small_window []) = Some g \<and>
      gl (step capable_env (Frame 16 17 18) (run capable_env 0 small_window [])) = Some g' \<and>
      framebuffers (run capable_env 0 small_window []) bufferA = Some fa \<and>
      framebuffers (run capable_env 0 small_window []) bufferAPrev = Some fp \<and>
      textures (run capable_env 0 small_window []) bufferA = Some ta \<and>
      textures (run capable_env 0 small_window []) bufferAPrev = Some tp \<and>
      gl_log g' = gl_log g @ [Draw dA, Draw dB, Draw dI, Blit (Some fa) (Some fp) 6 3] \<and>
      gl_textures g' ta = Some wk' \<and> gl_textures g' tp = Some hist' \<and>
      tex_px hist' 5 2 = tex_px wk' 5 2)"
proof -
  let ?s = "run capable_env 0 small_window []"
  have r: "0 < rafPending ?s" "isRunning ?s" using sample_start(2,3) by simp_all
  from tick_runs_three_passes_then_copies[OF refl r, of 16 17 18]
  obtain g g' c fa fp ta tp dA dB dI wk' hist' where
    "gl ?s = Some g" "canvas ?s = Some c"
    "gl (step capable_env (Frame 16 17 18) ?s) = Some g'"
    "framebuffers ?s bufferA = Some fa" "framebuffers ?s bufferAPrev = Some fp"
    "textures ?s bufferA = Some ta" "textures ?s bufferAPrev = Some tp"
    "gl_log g' = gl_log g @ [Draw dA, Draw dB, Draw dI, Blit (Some fa) (Some fp) (cv_width c) (cv_height c)]"
    "gl_textures g' ta = Some wk'" "gl_textures g' tp = Some hist'"
    "\<forall>x y. x < cv_width c \<and> y < cv_height c \<longrightarrow> tex_px hist' x y = tex_px wk' x y"
    by blast
  then have "gl ?s = Some g \<and> gl (step capable_env (Frame 16 17 18) ?s) = Some g' \<and>
      framebuffers ?s bufferA = Some fa \<and> framebuffers ?s bufferAPrev = Some fp \<and>
      textures ?s bufferA = Some ta \<and> textures ?s bufferAPrev = Some tp \<and>
      gl_log g' = gl_log g @ [Draw dA, Draw dB, Draw dI, Blit (Some fa) (Some fp) 6 3] \<and>
      gl_textures g' ta = Some wk' \<and> gl_textures g' tp = Some hist' \<and>
      tex_px hist' 5 2 = tex_px wk' 5 2"
    using sample_start(1) by auto
  with r show ?thesis by blast
qed

section \<open>The uniforms of a tick\<close>

text \<open>
  Claim C9, as amended. Within one tick the three passes receive the same \<^verbatim>\<open>iFrame\<close> (the
  frame counter before the tick) and the same \<^verbatim>\<open>iResolution\<close> (the canvas size), while
  \<^verbatim>\<open>iTime\<close> is computed in each \<^verbatim>\<open>renderPass\<close> from a clock reading of its own: pass \<open>k\<close>
  receives \<open>(n\<^sub>k - startTime) / 1000\<close> for the reading \<open>n\<^sub>k\<close> it took.
\<close>

theorem tick_uniforms:
  assumes "s = run e t0 win evs" and "0 < rafPending s" and "isRunning s"
  shows "\<exists>g g' c dA dB dI r d.
     gl s = Some g \<and> canvas s = Some c \<and> gl (step e (Frame n1 n2 n3) s) = Some g' \<and>
     gl_log g' = gl_log g @ [Draw dA, Draw dB, Draw dI, Blit r d (cv_width c) (cv_height c)] \<and>
     dc_iFrame dA = frameCount s \<and> dc_iFrame dB = frameCount s \<and> dc_iFrame dI = frameCount s \<and>
     dc_iResolution dA = (cv_width c, cv_height c) \<and>
     dc_iResolution dB = (cv_width c, cv_height c) \<and>
     dc_iResolution dI = (cv_width c, cv_height c) \<and>
     dc_iTime dA = (n1 - startTime s) / 1000 \<and>
     dc_iTime dB = (n2 - startTime s) / 1000 \<and>
     dc_iTime dI = (n3 - startTime s) / 1000"
proof -
  have i: "loader_inv s" unfolding assms(1) by (rule run_inv)
  from frame_step_running[OF i assms(2,3), of e n1 n2 n3]
  obtain g c pa pb pim where g: "gl s = Some g" and c: "canvas s = Some c"
    and st: "step e (Frame n1 n2 n3) s =
       s\<lparr>gl := Some (tick_context e s g c pa pb pim n1 n2 n3), frameCount := Suc (frameCount s)\<rparr>"
    by blast
  define g' where "g' = tick_context e s g c pa pb pim n1 n2 n3"
  define dA where "dA = pass_call s c n1 pa [textures s bufferAPrev] (Fb (framebuffers s bufferA))"
  define dB where "dB = pass_call s c n2 pb [textures s bufferA] (Fb (framebuffers s bufferB))"
  define dI where "dI = pass_call s c n3 pim [textures s bufferB, textures s bufferA] Null"
  have s1: "gl (step e (Frame n1 n2 n3) s) = Some g'" unfolding st g'_def by simp
  have lg: "gl_log g' = gl_log g @
       [Draw dA, Draw dB, Draw dI,
        Blit (framebuffers s bufferA) (framebuffers s bufferAPrev) (cv_width c) (cv_height c)]"
    by (simp add: g'_def dA_def dB_def dI_def tick_context_log)
  have u: "dc_iFrame dA = frameCount s" "dc_iFrame dB = frameCount s" "dc_iFrame dI = frameCount s"
    "dc_iResolution dA = (cv_width c, cv_height c)"
    "dc_iResolution dB = (cv_width c, cv_height c)"
    "dc_iResolution dI = (cv_width c, cv_height c)"
    "dc_iTime dA = (n1 - startTime s) / 1000"
    "dc_iTime dB = (n2 - startTime s) / 1000"
    "dc_iTime dI = (n3 - startTime s) / 1000"
    by (simp_all add: dA_def dB_def dI_def)
  from g c s1 lg u show ?thesis by blast
qed

theorem tick_uniforms_witness:
  "0 < rafPending (run capable_env 0 small_window []) \<and>
   isRunning (run capable_env 0 small_window []) \<and>
   (\<exists>g g' dA dB dI r d.
      gl (run capable_env 0 small_window []) = Some g \<and>
      gl (step capable_env (Frame 16 17 18) (run capable_env 0 small_window [])) = Some g' \<and>
      gl_log g' = gl_log g @ [Draw dA, Draw dB, Draw dI, Blit r d 6 3] \<and>
      dc_iFrame dA = 0 \<and> dc_iFrame dB = 0 \<and> dc_iFrame dI = 0 \<and>
      dc_iResolution dA = (6, 3) \<and> dc_iResolution dB = (6, 3) \<and> dc_iResolution dI = (6, 3) \<and>
      dc_iTime dA = 2 / 125 \<and> dc_iTime dB = 17 / 1000 \<and> dc_iTime dI = 9 / 500)"
proof -
  let ?s = "run capable_env 0 small_window []"
  have r: "0 < rafPending ?s" "isRunning ?s" using sample_start(2,3) by simp_all
  from tick_uniforms[OF refl r, of 16 17 18]
  obtain g g' c dA dB dI r' d where
    "gl ?s = Some g" "canvas ?s = Some c"
    "gl (step capable_env (Frame 16 17 18) ?s) = Some g'"
    "gl_log g' = gl_log g @ [Draw dA, Draw dB, Draw dI, Blit r' d (cv_width c) (cv_height c)]"
    "dc_iFrame dA = frameCount ?s" "dc_iFrame dB = frameCount ?s" "dc_iFrame dI = frameCount ?s"
    "dc_iResolution dA = (cv_width c, cv_height c)"
    "dc_iResolution dB = (cv_width c, cv_height c)"
    "dc_iResolution dI = (cv_width c, cv_height c)"
    "dc_iTime dA = (16 - startTime ?s) / 1000"
    "dc_iTime dB = (17 - startTime ?s) / 1000"
    "dc_iTime dI = (18 - startTime ?s) / 1000"
    by blast
  then have "gl ?s = Some g \<and> gl (step capable_env (Frame 16 17 18) ?s) = Some g' \<and>
      gl_log g' = gl_log g @ [Draw dA, Draw dB, Draw dI, Blit r' d 6 3] \<and>
      dc_iFrame dA = 0 \<and> dc_iFrame dB = 0 \<and> dc_iFrame dI = 0 \<and>
      dc_iResolution dA = (6, 3) \<and> dc_iResolution dB = (6, 3) \<and> dc_iResolution dI = (6, 3) \<and>
      dc_iTime dA = 2 / 125 \<and> dc_iTime dB = 17 / 1000 \<and> dc_iTime dI = 9 / 500"
    using sample_start(1,4,5) by auto
  with r show ?thesis by blast
qed

text \<open>
  Claim C9 as stated fails for \<^verbatim>\<open>iTime\<close>: with clock readings 16, 17 and 18 ms during the
  first tick, the three draws carry three different times.
\<close>

theorem tick_time_counterexample:
  "draw_times (loader_log (run capable_env 0 small_window [Frame 16 17 18])) =
     [16 / 1000, 17 / 1000, 18 / 1000] \<and> (16 / 1000 :: real) \<noteq> 17 / 1000"
  using sample_first_tick(1) by simp

section \<open>The first tick\<close>

text \<open>
  Claim C5, as amended. On a capable platform the history target is black when the first
  tick starts, so Pass A reads the blank initial state; when the first tick has completed,
  the working target holds Pass A's output for that blank input, and the history target
  holds the same pixels, because the copy runs at the end of the tick.
\<close>

theorem first_tick_feedback:
  assumes "capable e"
  shows "\<exists>c wk hist.
     canvas (run e t0 win [Frame n1 n2 n3]) = Some c \<and>
     cv_width c = nat \<lfloor>innerWidth win\<rfloor> \<and> cv_height c = nat \<lfloor>innerHeight win\<rfloor> \<and>
     frameCount (run e t0 win [Frame n1 n2 n3]) = 1 \<and>
     target_texture (run e t0 win []) bufferAPrev =
       Some \<lparr>tex_w = cv_width c, tex_h = cv_height c, tex_px = blackData\<rparr> \<and>
     target_texture (run e t0 win [Frame n1 n2 n3]) bufferA = Some wk \<and>
     target_texture (run e t0 win [Frame n1 n2 n3]) bufferAPrev = Some hist \<and>
     tex_w wk = cv_width c \<and> tex_h wk = cv_height c \<and>
     tex_w hist = cv_width c \<and> tex_h hist = cv_height c \<and>
     (\<forall>x y. x < cv_width c \<and> y < cv_height c \<longrightarrow>
        tex_px wk x y =
          shade e bufferA_prog ((n1 - t0) / 1000) (cv_width c, cv_height c) 0
            [Some \<lparr>tex_w = cv_width c, tex_h = cv_height c, tex_px = blackData\<rparr>] x y \<and>
        tex_px hist x y = tex_px wk x y)"
proof -
  let ?s = "run e t0 win []"
  have st: "started e win t0 ?s" by (rule run_started)
  then have i: "loader_inv ?s" and r: "0 < rafPending ?s" and ev: "eventsDispatched ?s = 0"
    and t0: "startTime ?s = t0" and fc: "frameCount ?s = 0"
    and pr: "\<forall>k tx. target_texture ?s k = Some tx \<longrightarrow> tex_px tx = blackData"
    using assms by (simp_all add: started_def)
  from st obtain c0 where c0: "canvas ?s = Some c0" "cv_width c0 = nat \<lfloor>innerWidth win\<rfloor>"
    "cv_height c0 = nat \<lfloor>innerHeight win\<rfloor>"
    by (auto simp: started_def)
  have ir: "isRunning ?s" using i ev by (simp add: loader_inv_def)
  from running_tick[OF i r ir, of e n1 n2 n3] c0(1)
  obtain g pa pb pim ta tp wk' hist' hist where
    g: "gl ?s = Some g"
    and t: "textures ?s bufferA = Some ta" "textures ?s bufferAPrev = Some tp"
    and h: "gl_textures g tp = Some hist" "tex_w hist = cv_width c0" "tex_h hist = cv_height c0"
    and sp: "step e (Frame n1 n2 n3) ?s =
       ?s\<lparr>gl := Some (tick_context e ?s g c0 pa pb pim n1 n2 n3), frameCount := Suc (frameCount ?s)\<rparr>"
    and x: "gl_textures (tick_context e ?s g c0 pa pb pim n1 n2 n3) ta = Some wk'"
     "gl_textures (tick_context e ?s g c0 pa pb pim n1 n2 n3) tp = Some hist'"
     "tex_w wk' = cv_width c0" "tex_h wk' = cv_height c0"
     "tex_w hist' = cv_width c0" "tex_h hist' = cv_height c0"
    and px: "\<forall>x y. x < cv_width c0 \<and> y < cv_height c0 \<longrightarrow>
        tex_px wk' x y =
          shade e bufferA_prog ((n1 - startTime ?s) / 1000) (cv_width c0, cv_height c0)
            (frameCount ?s) [Some hist] x y \<and>
        tex_px hist' x y = tex_px wk' x y"
    by force
  have th: "target_texture ?s bufferAPrev = Some hist"
    using g t h by (simp add: target_texture_def)
  then have "tex_px hist = blackData" using pr by blast
  with h have hb: "hist = \<lparr>tex_w = cv_width c0, tex_h = cv_height c0, tex_px = blackData\<rparr>"
    by simp
  have run1: "run e t0 win [Frame n1 n2 n3] = step e (Frame n1 n2 n3) ?s"
    using run_append[of e t0 win "[]" "[Frame n1 n2 n3]"] by simp
  have a: "canvas (run e t0 win [Frame n1 n2 n3]) = Some c0"
    "frameCount (run e t0 win [Frame n1 n2 n3]) = 1"
    "target_texture (run e t0 win [Frame n1 n2 n3]) bufferA = Some wk'"
    "target_texture (run e t0 win [Frame n1 n2 n3]) bufferAPrev = Some hist'"
    unfolding run1 sp using c0 fc t x by (simp_all add: target_texture_def)
  have px': "\<forall>x y. x < cv_width c0 \<and> y < cv_height c0 \<longrightarrow>
        tex_px wk' x y =
          shade e bufferA_prog ((n1 - t0) / 1000) (cv_width c0, cv_height c0) 0
            [Some \<lparr>tex_w = cv_width c0, tex_h = cv_height c0, tex_px = blackData\<rparr>] x y \<and>
        tex_px hist' x y = tex_px wk' x y"
    using px t0 fc hb by simp
  from a c0(2,3) th hb x(3-6) px' show ?thesis by blast
qed

theorem first_tick_feedback_witness:
  "capable capable_env \<and>
   (\<exists>wk hist.
      target_texture (run capable_env 0 small_window []) bufferAPrev =
        Some \<lparr>tex_w = 6, tex_h = 3, tex_px = blackData\<rparr> \<and>
      target_texture (run capable_env 0 small_window [Frame 16 17 18]) bufferA = Some wk \<and>
      target_texture (run capable_env 0 small_window [Frame 16 17 18]) bufferAPrev = Some hist \<and>
      tex_px wk 5 2 = (255, 255, 255, 255) \<and> tex_px hist 5 2 = tex_px wk 5 2)"
proof -
  from first_tick_feedback[OF capable_sample, of 0 small_window 16 17 18]
  obtain c wk hist where
    cv: "canvas (run capable_env 0 small_window [Frame 16 17 18]) = Some c"
    and c: "cv_width c = nat \<lfloor>innerWidth small_window\<rfloor>" "cv_height c = nat \<lfloor>innerHeight small_window\<rfloor>"
    and fc: "frameCount (run capable_env 0 small_window [Frame 16 17 18]) = 1"
    and b: "target_texture (run capable_env 0 small_window []) bufferAPrev =
       Some \<lparr>tex_w = cv_width c, tex_h = cv_height c, tex_px = blackData\<rparr>"
    and t: "target_texture (run capable_env 0 small_window [Frame 16 17 18]) bufferA = Some wk"
      "target_texture (run capable_env 0 small_window [Frame 16 17 18]) bufferAPrev = Some hist"
    and dm: "tex_w wk = cv_width c" "tex_h wk = cv_height c"
      "tex_w hist = cv_width c" "tex_h hist = cv_height c"
    and px: "\<forall>x y. x < cv_width c \<and> y < cv_height c \<longrightarrow>
        tex_px wk x y =
          shade capable_env bufferA_prog ((16 - 0) / 1000) (cv_width c, cv_height c) 0
            [Some \<lparr>tex_w = cv_width c, tex_h = cv_height c, tex_px = blackData\<rparr>] x y \<and>
        tex_px hist x y = tex_px wk x y"
    by (elim exE conjE) (rule that, assumption+)
  have d: "cv_width c = 6" "cv_height c = 3" using c by (simp_all add: small_window_def)
  have "tex_px wk 5 2 = (255, 255, 255, 255) \<and> tex_px hist 5 2 = tex_px wk 5 2"
    using px[rule_format, of 5 2] d by (simp add: capable_env_def)
  with b t d capable_sample show ?thesis by auto
qed

text \<open>
  Claim C5 as stated fails: after the first tick on the sample platform the history target is
  white at pixel (0, 0), as the working target is; it is no longer blank.
\<close>

theorem first_tick_history_counterexample:
  "target_pixel (run capable_env 0 small_window [Frame 16 17 18]) bufferAPrev 0 0 =
     Some (255, 255, 255, 255) \<and>
   target_pixel (run capable_env 0 small_window [Frame 16 17 18]) bufferAPrev 0 0 \<noteq>
     Some (blackData 0 0)"
  using sample_first_tick(2) by (simp add: blackData_def)

section \<open>GPU objects at finalization\<close>

text \<open>
  Claim C3 does not hold of the code. When the transition reaches progress 1 the interval
  calls \<^verbatim>\<open>complete\<close>, which stops the loop and removes the elements but deletes nothing: on
  the sample platform, after the finalization at 6500 ms, no delete call has been issued, the
  working texture is alive and the vertex buffer is still held. The releases are written in
  \<^verbatim>\<open>destroy\<close>, which nothing calls; applied to the same state it does delete them.
\<close>

theorem finalization_keeps_gpu_objects:
  "eventsDispatched (run capable_env 0 small_window [TransitionTimeout, Interval 6500]) = 1 \<and>
   \<not> isRunning (run capable_env 0 small_window [TransitionTimeout, Interval 6500]) \<and>
   filter is_delete (loader_log (run capable_env 0 small_window [TransitionTimeout, Interval 6500])) = [] \<and>
   target_texture (run capable_env 0 small_window [TransitionTimeout, Interval 6500]) bufferA =
     Some \<lparr>tex_w = 6, tex_h = 3, tex_px = blackData\<rparr> \<and>
   buffer (run capable_env 0 small_window [TransitionTimeout, Interval 6500]) \<noteq> None \<and>
   filter is_delete
     (loader_log (destroy (run capable_env 0 small_window [TransitionTimeout, Interval 6500]))) \<noteq> [] \<and>
   target_texture (destroy (run capable_env 0 small_window [TransitionTimeout, Interval 6500])) bufferA = None"
  using sample_released sample_destroyed by simp

section \<open>The fallback path\<close>

text \<open>
  Claim C6. Whenever no WebGL2 context is obtained or one of the three programs fails to
  compile or link, \<^verbatim>\<open>init\<close> engages the CSS fallback (\<^verbatim>\<open>hasError\<close> set, the pattern shown)
  and never starts the render loop, so no tick ever runs. On this path as on the GPU path the
  one transition timer is scheduled with the delay 5000 ms. On either path, through any
  sequence of callbacks in which no interval callback sees 6500 ms elapsed, nothing is
  finalized and the interval is active exactly when the transition timer has fired; and from
  every reachable state with an active interval, the interval callback that sees 6500 ms
  elapsed runs the same finalization: the event is dispatched once, the callback called once
  if one is installed, the interval cleared, the elements removed.
\<close>

theorem fallback_converges:
  assumes "\<not> capable e"
  shows "hasError (run e t0 win []) \<and>
    (\<exists>c. canvas (run e t0 win []) = Some c \<and> cv_pattern c \<and> cv_opacity c = 1 \<and> cv_attached c) \<and>
    (\<forall>evs. rafPending (run e t0 win evs) = 0 \<and> frameCount (run e t0 win evs) = 0) \<and>
    (\<forall>e'. transitionTimers (run e' t0 win []) = [5000] \<and>
          hasError (run e' t0 win []) = (\<not> capable e')) \<and>
    (\<forall>e' evs. list_all (early t0) evs \<longrightarrow>
       eventsDispatched (run e' t0 win evs) = 0 \<and>
       intervals (run e' t0 win evs) = (if TransitionTimeout \<in> set evs then 1 else 0)) \<and>
    (\<forall>e' evs now. 0 < intervals (run e' t0 win evs) \<and> 6500 \<le> now - t0 \<longrightarrow>
       finalized (onComplete (run e' t0 win evs)) (run e' t0 win (evs @ [Interval now]))) \<and>
    (\<forall>e' cb now. 6500 \<le> now - t0 \<longrightarrow>
       finalized cb (run e' t0 win [AssignOnComplete cb, TransitionTimeout, Interval now]))"
proof -
  have st: "started e win t0 (run e t0 win [])" by (rule run_started)
  have a: "hasError (run e t0 win [])" using st assms by (simp add: started_def)
  have b: "\<exists>c. canvas (run e t0 win []) = Some c \<and> cv_pattern c \<and> cv_opacity c = 1 \<and> cv_attached c"
    using st assms by (auto simp: started_def)
  have i: "loader_inv (run e t0 win [])" and r: "rafPending (run e t0 win []) = 0"
    and fc: "frameCount (run e t0 win []) = 0"
    using st assms by (simp_all add: started_def)
  have c: "\<forall>evs. rafPending (run e t0 win evs) = 0 \<and> frameCount (run e t0 win evs) = 0"
  proof
    fix evs
    show "rafPending (run e t0 win evs) = 0 \<and> frameCount (run e t0 win evs) = 0"
      using idle_fold[OF i r, of e evs] fc run_append[of e t0 win "[]" evs] by simp
  qed
  have d: "\<forall>e'. transitionTimers (run e' t0 win []) = [5000] \<and>
          hasError (run e' t0 win []) = (\<not> capable e')"
  proof
    fix e'
    show "transitionTimers (run e' t0 win []) = [5000] \<and>
          hasError (run e' t0 win []) = (\<not> capable e')"
      using run_started[of e' win t0] by (simp add: started_def)
  qed
  have f: "\<forall>e' evs. list_all (early t0) evs \<longrightarrow>
       eventsDispatched (run e' t0 win evs) = 0 \<and>
       intervals (run e' t0 win evs) = (if TransitionTimeout \<in> set evs then 1 else 0)"
    using run_early by blast
  have g: "\<forall>e' evs now. 0 < intervals (run e' t0 win evs) \<and> 6500 \<le> now - t0 \<longrightarrow>
       finalized (onComplete (run e' t0 win evs)) (run e' t0 win (evs @ [Interval now]))"
    using run_interval_finalizes by blast
  have h: "\<forall>e' cb now. 6500 \<le> now - t0 \<longrightarrow>
       finalized cb (run e' t0 win [AssignOnComplete cb, TransitionTimeout, Interval now])"
    using run_finalized by blast
  from a b c d f g h show ?thesis by blast
qed

theorem fallback_converges_witness:
  "\<not> capable incapable_env \<and> \<not> capable broken_shader_env \<and>
   hasError (run incapable_env 0 small_window []) \<and>
   hasError (run broken_shader_env 0 small_window []) \<and>
   rafPending (run broken_shader_env 0 small_window [Frame 16 17 18]) = 0 \<and>
   frameCount (run broken_shader_env 0 small_window [Frame 16 17 18]) = 0 \<and>
   transitionTimers (run incapable_env 0 small_window []) = [5000] \<and>
   transitionTimers (run capable_env 0 small_window []) = [5000] \<and>
   list_all (early 0)
     [AssignOnComplete True, LogoTimeout, TransitionTimeout, Interval 5016, Interval 5900] \<and>
   intervals (run incapable_env 0 small_window
     [AssignOnComplete True, LogoTimeout, TransitionTimeout, Interval 5016, Interval 5900]) = 1 \<and>
   eventsDispatched (run incapable_env 0 small_window
     [AssignOnComplete True, LogoTimeout, TransitionTimeout, Interval 5016, Interval 5900]) = 0 \<and>
   intervals (run incapable_env 0 small_window [AssignOnComplete True, LogoTimeout]) = 0 \<and>
   finalized True (run incapable_env 0 small_window
     [AssignOnComplete True, LogoTimeout, TransitionTimeout, Interval 5016, Interval 5900,
      Interval 6500]) \<and>
   finalized True (run capable_env 0 small_window
     [AssignOnComplete True, Frame 16 17 18, TransitionTimeout, Interval 5016,
      Frame 5020 5021 5022, Interval 5900, Interval 6500]) \<and>
   finalized True (run incapable_env 0 small_window
     [AssignOnComplete True, TransitionTimeout, Interval 6500])"
proof -
  let ?xs = "[AssignOnComplete True, LogoTimeout, TransitionTimeout, Interval 5016, Interval 5900]"
  let ?ys = "[AssignOnComplete True, Frame 16 17 18, TransitionTimeout, Interval 5016,
      Frame 5020 5021 5022, Interval 5900]"
  note a = fallback_converges[OF sample_fallback(1), of 0 small_window]
  note b = fallback_converges[OF sample_fallback(2), of 0 small_window]
  have 1: "hasError (run incapable_env 0 small_window [])" using a by blast
  have 2: "hasError (run broken_shader_env 0 small_window [])" using b by blast
  have "\<forall>evs. rafPending (run broken_shader_env 0 small_window evs) = 0 \<and>
              frameCount (run broken_shader_env 0 small_window evs) = 0"
    using b by blast
  from this[rule_format, of "[Frame 16 17 18]"]
  have 3: "rafPending (run broken_shader_env 0 small_window [Frame 16 17 18]) = 0"
    "frameCount (run broken_shader_env 0 small_window [Frame 16 17 18]) = 0"
    by simp_all
  have t: "\<forall>e'. transitionTimers (run e' 0 small_window []) = [5000] \<and>
          hasError (run e' 0 small_window []) = (\<not> capable e')"
    using a by blast
  have 4: "transitionTimers (run incapable_env 0 small_window []) = [5000]"
    "transitionTimers (run capable_env 0 small_window []) = [5000]"
    using t by simp_all
  have ex: "list_all (early 0) ?xs" and ey: "list_all (early 0) ?ys"
    and ez: "list_all (early 0) [AssignOnComplete True, LogoTimeout]"
    by simp_all
  have f: "\<forall>e' evs. list_all (early 0) evs \<longrightarrow>
       eventsDispatched (run e' 0 small_window evs) = 0 \<and>
       intervals (run e' 0 small_window evs) = (if TransitionTimeout \<in> set evs then 1 else 0)"
    using a by blast
  have 5: "intervals (run incapable_env 0 small_window ?xs) = 1"
    "eventsDispatched (run incapable_env 0 small_window ?xs) = 0"
    using f[rule_format, OF ex, of incapable_env] by simp_all
  have 6: "intervals (run capable_env 0 small_window ?ys) = 1"
    using f[rule_format, OF ey, of capable_env] by simp
  have 7: "intervals (run incapable_env 0 small_window [AssignOnComplete True, LogoTimeout]) = 0"
    using f[rule_format, OF ez, of incapable_env] by simp
  have g: "\<forall>e' evs now. 0 < intervals (run e' 0 small_window evs) \<and> 6500 \<le> now - 0 \<longrightarrow>
       finalized (onComplete (run e' 0 small_window evs)) (run e' 0 small_window (evs @ [Interval now]))"
    using a by blast
  have 8: "finalized True (run incapable_env 0 small_window (?xs @ [Interval 6500]))"
    using g[rule_format, of incapable_env ?xs 6500] 5(1) sample_early(1) by simp
  have 9: "finalized True (run capable_env 0 small_window (?ys @ [Interval 6500]))"
    using g[rule_format, of capable_env ?ys 6500] 6 sample_frames by simp
  have h: "\<forall>e' cb now. 6500 \<le> now - 0 \<longrightarrow>
       finalized cb (run e' 0 small_window [AssignOnComplete cb, TransitionTimeout, Interval now])"
    using a by blast
  have 10: "finalized True (run incapable_env 0 small_window
     [AssignOnComplete True, TransitionTimeout, Interval 6500])"
    using h[rule_format, of 6500 True incapable_env] by simp
  from sample_fallback 1 2 3 4 ex 5 7 8 9 10 show ?thesis by simp
qed

end
